theory Spec2Isabelle
  imports Main
begin

section \<open>Data model of helpers/gitlabreviewhelper.py\<close>

text \<open>
  Python strings are modelled as HOL strings (lists of 8-bit characters, read as the
  code points below 256); Python's unbounded integers as \<open>int\<close>. The dataclasses
  \<open>ParsedLine\<close> and \<open>Diff\<close> become records. The paths of a \<open>Diff\<close> come from
  \<open>change.get("old_path")\<close> and \<open>change.get("new_path")\<close> in \<open>get_diffs_from_mr\<close>,
  so they can be \<open>None\<close>.
\<close>

record ParsedLine =
  content :: string
  old_line :: "int option"
  new_line :: "int option"
  type :: string

record Diff =
  oldpath :: "string option"
  newpath :: "string option"
  parsed_lines :: "ParsedLine list"

text \<open>A chat message is the dictionary \<open>{"role": r, "content": c}\<close>, kept as the pair \<open>(r, c)\<close>.\<close>

type_synonym message = "string \<times> string"

text \<open>
  The tokenizer \<open>tiktoken.encoding_for_model(model)\<close> is an external library. It enters
  every definition as a parameter \<open>tok\<close>: the number of tokens of a text, that is
  \<open>len(encoding.encode(text))\<close>.
\<close>

type_synonym tokenizer = "string \<Rightarrow> nat"

section \<open>String helpers: \<open>str(int)\<close> and \<open>"\n".join\<close>\<close>

definition digit_char :: "nat \<Rightarrow> char" where
  "digit_char n = ''0123456789'' ! (n mod 10)"

function str_nat :: "nat \<Rightarrow> string" where
  "str_nat n = (if n < 10 then [digit_char n] else str_nat (n div 10) @ [digit_char n])"
  by pat_completeness auto
termination
  by (relation "measure (\<lambda>n. n)") auto

declare str_nat.simps [simp del]

definition str_int :: "int \<Rightarrow> string" where
  "str_int i = (if i < 0 then CHR ''-'' # str_nat (nat (- i)) else str_nat (nat i))"

text \<open>\<open>"\n".join(xs)\<close>\<close>

fun join_lines :: "string list \<Rightarrow> string" where
  "join_lines [] = []"
| "join_lines [x] = x"
| "join_lines (x # y # ys) = x @ CHR 0x0A # join_lines (y # ys)"

section \<open>\<open>summarize_diffs_multiline\<close>\<close>

text \<open>\<open>a or b\<close> on optional strings: \<open>a\<close> when it is truthy (not \<open>None\<close>, not empty).\<close>

definition py_or :: "string option \<Rightarrow> string option \<Rightarrow> string option" where
  "py_or a b = (case a of None \<Rightarrow> b | Some s \<Rightarrow> (if s = [] then b else a))"

text \<open>How an f-string prints an optional value.\<close>

definition fmt_str :: "string option \<Rightarrow> string" where
  "fmt_str v = (case v of None \<Rightarrow> ''None'' | Some s \<Rightarrow> s)"

definition fmt_int :: "int option \<Rightarrow> string" where
  "fmt_int v = (case v of None \<Rightarrow> ''None'' | Some i \<Rightarrow> str_int i)"

text \<open>The dictionary lookup \<open>{...}.get(line.type, "")\<close>.\<close>

definition line_type_marker :: "string \<Rightarrow> string" where
  "line_type_marker t =
     (if t = ''none'' then [CHR ''('', CHR ''*'', CHR '')'']
      else if t = ''old'' then ''(-)''
      else if t = ''new'' then ''(+)''
      else if t = ''block'' then ''''
      else '''')"

definition summary_line :: "ParsedLine \<Rightarrow> string" where
  "summary_line l =
     (let line_number = (case new_line l of Some n \<Rightarrow> Some n | None \<Rightarrow> old_line l)
      in fmt_int line_number @ '' '' @ line_type_marker (type l) @ '': '' @ content l)"

definition diff_summary_lines :: "Diff \<Rightarrow> string list" where
  "diff_summary_lines d =
     (''PATH: '' @ fmt_str (py_or (newpath d) (oldpath d)))
       # map summary_line (parsed_lines d) @ ['''']"

definition summarize_diffs_multiline :: "Diff list \<Rightarrow> string" where
  "summarize_diffs_multiline diffs = join_lines (concat (map diff_summary_lines diffs))"

section \<open>\<open>estimate_tokens\<close> and \<open>split_into_chunks\<close>\<close>

definition estimate_tokens :: "tokenizer \<Rightarrow> message list \<Rightarrow> int" where
  "estimate_tokens tok messages = (\<Sum>m\<leftarrow>messages. int (tok (snd m)))"

text \<open>The loop state of \<open>split_into_chunks\<close>: its three local variables.\<close>

record chunk_state =
  chunks :: "Diff list list"
  current_chunk :: "Diff list"
  current_tokens :: int

text \<open>
  The local variable \<open>diff_tokens\<close> of the loop body: the cost of the rendered summary of
  one diff. (Named \<open>diff_cost\<close> here; \<open>diff_tokens\<close> is the statistics counter below.)
\<close>

definition diff_cost :: "tokenizer \<Rightarrow> Diff \<Rightarrow> int" where
  "diff_cost tok d = int (tok (summarize_diffs_multiline [d]))"

definition chunk_init :: "tokenizer \<Rightarrow> message list \<Rightarrow> chunk_state" where
  "chunk_init tok base_messages =
     \<lparr>chunks = [], current_chunk = [], current_tokens = estimate_tokens tok base_messages\<rparr>"

text \<open>One pass through the body of \<open>for diff in diffs\<close>.\<close>

definition chunk_step ::
  "tokenizer \<Rightarrow> int \<Rightarrow> message list \<Rightarrow> chunk_state \<Rightarrow> Diff \<Rightarrow> chunk_state" where
  "chunk_step tok max_tokens_per_chunk base_messages st d =
     (let st1 =
        (if current_tokens st + diff_cost tok d > max_tokens_per_chunk
         then \<lparr>chunks = chunks st @ [current_chunk st], current_chunk = [],
               current_tokens = estimate_tokens tok base_messages\<rparr>
         else st)
      in \<lparr>chunks = chunks st1, current_chunk = current_chunk st1 @ [d],
          current_tokens = current_tokens st1 + diff_cost tok d\<rparr>)"

text \<open>The flush after the loop: \<open>if current_chunk: chunks.append(current_chunk)\<close>.\<close>

definition chunk_flush :: "chunk_state \<Rightarrow> Diff list list" where
  "chunk_flush st = (if current_chunk st \<noteq> [] then chunks st @ [current_chunk st] else chunks st)"

text \<open>
  \<open>split_into_chunks(diffs, max_tokens_per_chunk, base_messages, model)\<close>; the tokenizer
  stands for the model. The sum \<open>summ_of_diff_tokens\<close> is only logged and is left out.
\<close>

definition split_into_chunks ::
  "tokenizer \<Rightarrow> Diff list \<Rightarrow> int \<Rightarrow> message list \<Rightarrow> Diff list list" where
  "split_into_chunks tok diffs max_tokens_per_chunk base_messages =
     chunk_flush (foldl (chunk_step tok max_tokens_per_chunk base_messages)
       (chunk_init tok base_messages) diffs)"

text \<open>
  The value of the running counter \<open>current_tokens\<close> when the loop has consumed
  \<open>diffs\<close>, and the summed cost of the diffs of one chunk.
\<close>

definition running_tokens :: "tokenizer \<Rightarrow> Diff list \<Rightarrow> int \<Rightarrow> message list \<Rightarrow> int" where
  "running_tokens tok diffs max_tokens_per_chunk base_messages =
     current_tokens (foldl (chunk_step tok max_tokens_per_chunk base_messages)
       (chunk_init tok base_messages) diffs)"

definition chunk_cost :: "tokenizer \<Rightarrow> Diff list \<Rightarrow> int" where
  "chunk_cost tok chunk = (\<Sum>d\<leftarrow>chunk. diff_cost tok d)"

text \<open>A diff with a new path only and no lines, for concrete evaluations.\<close>

definition file_of_path :: "string \<Rightarrow> Diff" where
  "file_of_path p = \<lparr>oldpath = None, newpath = Some p, parsed_lines = []\<rparr>"

section \<open>Exceptions\<close>

text \<open>
  The exceptions that can leave the modelled functions. A function that can raise returns
  a sum: \<open>Inl\<close> an exception, \<open>Inr\<close> its result.
\<close>

datatype py_exception =
  TypeError
  | RuntimeError string
  | RateLimitError
  | OtherException string

section \<open>\<open>str.splitlines\<close>\<close>

text \<open>
  The line boundaries of \<open>str.splitlines()\<close> among the code points below 256: line feed,
  carriage return (and the pair CR LF, one boundary), vertical tab, form feed, the file,
  group and record separators, and NEL. (The two remaining boundaries, U+2028 and U+2029,
  are not characters of the 8-bit model.) A trailing boundary does not open a last, empty
  line.
\<close>

definition line_boundary :: "char \<Rightarrow> bool" where
  "line_boundary c =
     (c = CHR 0x0A \<or> c = CHR 0x0D \<or> c = CHR 0x0B \<or> c = CHR 0x0C
      \<or> c = CHR 0x1C \<or> c = CHR 0x1D \<or> c = CHR 0x1E \<or> c = CHR 0x85)"

fun splitlines_from :: "string \<Rightarrow> string \<Rightarrow> string list" where
  "splitlines_from cur [] = (if cur = [] then [] else [cur])"
| "splitlines_from cur (c # cs) =
     (if c = CHR 0x0D then
        (case cs of
           [] \<Rightarrow> cur # splitlines_from [] cs
         | d # ds \<Rightarrow>
             (if d = CHR 0x0A then cur # splitlines_from [] ds
              else cur # splitlines_from [] cs))
      else if line_boundary c then cur # splitlines_from [] cs
      else splitlines_from (cur @ [c]) cs)"

definition splitlines :: "string \<Rightarrow> string list" where
  "splitlines s = splitlines_from [] s"

text \<open>\<open>line.startswith(p)\<close>\<close>

definition startswith :: "string \<Rightarrow> string \<Rightarrow> bool" where
  "startswith s p = (take (length p) s = p)"

section \<open>The hunk header pattern\<close>

text \<open>
  \<open>re.match(r"@@ -(\d+),\d+ \+(\d+)(?:,\d+)? @@", line)\<close>: a match at the start of the
  line, not necessarily up to its end. Every \<open>\d+\<close> of the pattern is followed by a
  character that is not a digit, so the greedy match with backtracking finds a match
  exactly when taking the longest run of digits does. Among the code points below 256 the
  class \<open>\d\<close> is \<open>0\<close> to \<open>9\<close>. The result is \<open>(int(group(1)), int(group(2)))\<close>.
\<close>

definition is_digit :: "char \<Rightarrow> bool" where
  "is_digit c = (c \<in> set ''0123456789'')"

text \<open>A literal piece of the pattern: the rest of the text after it, when it is there.\<close>

definition match_lit :: "string \<Rightarrow> string \<Rightarrow> string option" where
  "match_lit lit s = (if startswith s lit then Some (drop (length lit) s) else None)"

text \<open>\<open>\d+\<close>: the longest run of digits, which must not be empty, and the rest.\<close>

definition match_digits :: "string \<Rightarrow> (string \<times> string) option" where
  "match_digits s =
     (if takeWhile is_digit s = [] then None
      else Some (takeWhile is_digit s, dropWhile is_digit s))"

text \<open>\<open>(?:,\d+)?\<close>: the rest after the optional group (the text itself when it is absent).\<close>

definition match_opt_count :: "string \<Rightarrow> string" where
  "match_opt_count s =
     (case match_lit '','' s of
        None \<Rightarrow> s
      | Some r \<Rightarrow> (case match_digits r of None \<Rightarrow> s | Some (_, r') \<Rightarrow> r'))"

text \<open>\<open>int(digits)\<close> on a run of decimal digits.\<close>

definition digit_val :: "char \<Rightarrow> int" where
  "digit_val c = int (of_char c) - 48"

definition int_of_digits :: "string \<Rightarrow> int" where
  "int_of_digits ds = foldl (\<lambda>a c. 10 * a + digit_val c) 0 ds"

definition header_match :: "string \<Rightarrow> (int \<times> int) option" where
  "header_match line =
     (case match_lit ''@@ -'' line of None \<Rightarrow> None | Some r1 \<Rightarrow>
      (case match_digits r1 of None \<Rightarrow> None | Some (g1, r2) \<Rightarrow>
      (case match_lit '','' r2 of None \<Rightarrow> None | Some r3 \<Rightarrow>
      (case match_digits r3 of None \<Rightarrow> None | Some (_, r4) \<Rightarrow>
      (case match_lit '' +'' r4 of None \<Rightarrow> None | Some r5 \<Rightarrow>
      (case match_digits r5 of None \<Rightarrow> None | Some (g2, r6) \<Rightarrow>
      (case match_lit '' @@'' (match_opt_count r6) of None \<Rightarrow> None
       | Some _ \<Rightarrow> Some (int_of_digits g1, int_of_digits g2))))))))"

section \<open>\<open>parse_diff_block\<close>\<close>

text \<open>The local variables of the loop: \<open>parsed_lines\<close>, \<open>old_line\<close>, \<open>new_line\<close>.\<close>

record parse_state =
  ps_parsed_lines :: "ParsedLine list"
  ps_old_line :: "int option"
  ps_new_line :: "int option"

text \<open>\<open>x += 1\<close> on a counter that is still \<open>None\<close> raises \<open>TypeError\<close>.\<close>

definition incr :: "int option \<Rightarrow> py_exception + int option" where
  "incr v = (case v of None \<Rightarrow> Inl TypeError | Some i \<Rightarrow> Inr (Some (i + 1)))"

text \<open>
  The body of \<open>for line in diff_block.splitlines()\<close>. In each content branch the
  \<open>ParsedLine\<close> is appended first and the counters are incremented after it; an exception
  in an increment leaves the function, so the appended line is lost with the local list.
\<close>

definition parse_line :: "parse_state \<Rightarrow> string \<Rightarrow> py_exception + parse_state" where
  "parse_line st line =
     (case header_match line of
        Some (ol, nl) \<Rightarrow> Inr (st\<lparr>ps_old_line := Some ol, ps_new_line := Some nl\<rparr>)
      | None \<Rightarrow>
          if startswith line '' '' then
            (case incr (ps_old_line st) of Inl e \<Rightarrow> Inl e | Inr ol' \<Rightarrow>
             (case incr (ps_new_line st) of Inl e \<Rightarrow> Inl e | Inr nl' \<Rightarrow>
                Inr \<lparr>ps_parsed_lines = ps_parsed_lines st @
                       [\<lparr>content = drop 1 line, old_line = ps_old_line st,
                         new_line = ps_new_line st, type = ''none''\<rparr>],
                     ps_old_line = ol', ps_new_line = nl'\<rparr>))
          else if startswith line ''-'' then
            (case incr (ps_old_line st) of Inl e \<Rightarrow> Inl e | Inr ol' \<Rightarrow>
                Inr \<lparr>ps_parsed_lines = ps_parsed_lines st @
                       [\<lparr>content = drop 1 line, old_line = ps_old_line st,
                         new_line = None, type = ''old''\<rparr>],
                     ps_old_line = ol', ps_new_line = ps_new_line st\<rparr>)
          else if startswith line ''+'' then
            (case incr (ps_new_line st) of Inl e \<Rightarrow> Inl e | Inr nl' \<Rightarrow>
                Inr \<lparr>ps_parsed_lines = ps_parsed_lines st @
                       [\<lparr>content = drop 1 line, old_line = None,
                         new_line = ps_new_line st, type = ''new''\<rparr>],
                     ps_old_line = ps_old_line st, ps_new_line = nl'\<rparr>)
          else Inr st)"

fun parse_lines :: "parse_state \<Rightarrow> string list \<Rightarrow> py_exception + parse_state" where
  "parse_lines st [] = Inr st"
| "parse_lines st (l # ls) =
     (case parse_line st l of Inl e \<Rightarrow> Inl e | Inr st' \<Rightarrow> parse_lines st' ls)"

definition parse_diff_block :: "string \<Rightarrow> py_exception + ParsedLine list" where
  "parse_diff_block diff_block =
     (case parse_lines \<lparr>ps_parsed_lines = [], ps_old_line = None, ps_new_line = None\<rparr>
             (splitlines diff_block) of
        Inl e \<Rightarrow> Inl e
      | Inr st \<Rightarrow> Inr (ps_parsed_lines st))"

section \<open>Counting lines\<close>

text \<open>
  The kinds of line that move each counter, the number of emitted unchanged lines and the
  number of space-prefixed input lines.
\<close>

definition moves_old :: "string \<Rightarrow> bool" where
  "moves_old line = (header_match line = None \<and> (startswith line '' '' \<or> startswith line ''-''))"

definition moves_new :: "string \<Rightarrow> bool" where
  "moves_new line = (header_match line = None \<and> (startswith line '' '' \<or> startswith line ''+''))"

definition unchanged_count :: "ParsedLine list \<Rightarrow> nat" where
  "unchanged_count pls = length (filter (\<lambda>p. type p = ''none'') pls)"

definition space_prefixed :: "string list \<Rightarrow> nat" where
  "space_prefixed ls = length (filter (\<lambda>l. startswith l '' '') ls)"

section \<open>\<open>ChatGPTReviewer\<close>\<close>

text \<open>The dictionary \<open>token_stats\<close> with its three keys.\<close>

record token_stats =
  total_tokens :: int
  static_tokens :: int
  diff_tokens :: int

text \<open>
  The reviewer object. \<open>client\<close> and \<open>model\<close> are external handles: the model is
  represented by the tokenizer parameter, the client by the \<open>send\<close> parameter below. The
  field \<open>api_calls\<close> is not in the source: it counts the requests sent so far, so that the
  service may answer differently on each request.
\<close>

record ChatGPTReviewer =
  prompt_message :: string
  token_limit :: int
  max_tokens_per_chunk :: int
  token_stats :: token_stats
  api_calls :: nat

text \<open>
  \<open>__init__\<close>. The arguments are the configured \<open>TOKEN_LIMIT\<close> and the text returned by
  \<open>load_prompt_message()\<close> (a file's content or the default prompt, followed by the fixed
  output instructions).
\<close>

definition reviewer_init :: "tokenizer \<Rightarrow> int \<Rightarrow> string \<Rightarrow> ChatGPTReviewer" where
  "reviewer_init tok limit prompt =
     (let prompt_tokens = int (tok prompt)
      in \<lparr>prompt_message = prompt, token_limit = limit,
          max_tokens_per_chunk = limit - prompt_tokens,
          token_stats = \<lparr>total_tokens = 0, static_tokens = prompt_tokens, diff_tokens = 0\<rparr>,
          api_calls = 0\<rparr>)"

text \<open>
  \<open>send_to_chatgpt\<close>: the request to the service. It returns the response text or raises
  (the exception is logged and raised again). The service is a parameter: what it does
  with the \<open>n\<close>-th request, given the messages.
\<close>

type_synonym sender = "nat \<Rightarrow> message list \<Rightarrow> py_exception + string"

definition base_messages_of :: "string \<Rightarrow> string \<Rightarrow> message list" where
  "base_messages_of prompt task_details =
     (''system'', prompt)
       # (if task_details \<noteq> [] then [(''user'', ''Task Details: '' @ task_details)] else [])"

text \<open>
  The loop \<open>for i, chunk in enumerate(chunks)\<close> of \<open>get_review\<close>. Both counters are
  updated before the request is sent; an exception of the request leaves the loop with
  the counters already updated, since they live in the object.
\<close>

fun process_chunks ::
  "tokenizer \<Rightarrow> sender \<Rightarrow> message list \<Rightarrow> Diff list list \<Rightarrow> string list
     \<Rightarrow> ChatGPTReviewer \<Rightarrow> (py_exception + string list) \<times> ChatGPTReviewer" where
  "process_chunks tok send base_messages [] reviews r = (Inr reviews, r)"
| "process_chunks tok send base_messages (chunk # rest) reviews r =
     (let diff_summary = summarize_diffs_multiline chunk;
          messages = base_messages @ [(''user'', diff_summary)];
          message_text = join_lines (map snd messages);
          stats = token_stats r;
          stats1 = stats\<lparr>diff_tokens := diff_tokens stats + int (tok diff_summary)\<rparr>;
          stats2 = stats1\<lparr>total_tokens := total_tokens stats1 + int (tok message_text)\<rparr>;
          r' = r\<lparr>token_stats := stats2, api_calls := Suc (api_calls r)\<rparr>
      in (case send (api_calls r) messages of
            Inl e \<Rightarrow> (Inl e, r')
          | Inr response_content \<Rightarrow>
              process_chunks tok send base_messages rest (reviews @ [response_content]) r'))"

text \<open>The body of \<open>get_review\<close>, without its decorator.\<close>

definition get_review_body ::
  "tokenizer \<Rightarrow> sender \<Rightarrow> Diff list \<Rightarrow> string \<Rightarrow> ChatGPTReviewer
     \<Rightarrow> (py_exception + string list) \<times> ChatGPTReviewer" where
  "get_review_body tok send diffs task_details r =
     (let base_messages = base_messages_of (prompt_message r) task_details;
          chunks = split_into_chunks tok diffs (max_tokens_per_chunk r) base_messages
      in process_chunks tok send base_messages chunks [] r)"

text \<open>
  The decorator \<open>retry_on_exception\<close>: up to \<open>max_retries\<close> attempts; every exception of
  an attempt (a rate limit error or any other) is logged and followed by the next attempt;
  after the last attempt \<open>RuntimeError\<close> is raised. The sleeps between the attempts only
  take time and are left out.
\<close>

fun retry_on_exception ::
  "nat \<Rightarrow> ('s \<Rightarrow> (py_exception + 'a) \<times> 's) \<Rightarrow> 's \<Rightarrow> (py_exception + 'a) \<times> 's" where
  "retry_on_exception 0 func s =
     (Inl (RuntimeError ''Max retries reached. Unable to complete the request.''), s)"
| "retry_on_exception (Suc n) func s =
     (case func s of
        (Inr v, s') \<Rightarrow> (Inr v, s')
      | (Inl e, s') \<Rightarrow> retry_on_exception n func s')"

text \<open>\<open>get_review\<close> as callers see it: decorated with \<open>max_retries=5\<close>.\<close>

definition get_review ::
  "tokenizer \<Rightarrow> sender \<Rightarrow> Diff list \<Rightarrow> string \<Rightarrow> ChatGPTReviewer
     \<Rightarrow> (py_exception + string list) \<times> ChatGPTReviewer" where
  "get_review tok send diffs task_details r =
     retry_on_exception 5 (get_review_body tok send diffs task_details) r"

text \<open>\<open>get_token_statistic\<close>\<close>

definition get_token_statistic :: "ChatGPTReviewer \<Rightarrow> token_stats" where
  "get_token_statistic r = token_stats r"

text \<open>
  A property of a tokenizer that the statistics depend on: joining two texts with a
  newline never gives fewer tokens than the two texts have together.
\<close>

definition newline_superadditive :: "tokenizer \<Rightarrow> bool" where
  "newline_superadditive tok = (\<forall>a b. tok a + tok b \<le> tok (a @ CHR 0x0A # b))"

text \<open>A service that answers every request with the empty JSON array.\<close>

definition send_empty_array :: sender where
  "send_empty_array n messages = Inr ''[]''"

text \<open>A service that refuses every request.\<close>

definition send_rate_limited :: sender where
  "send_rate_limited n messages = Inl RateLimitError"




text \<open>A tokenizer that counts one token per four characters, rounded up.\<close>

definition four_chars_per_token :: tokenizer where
  "four_chars_per_token s = (length s + 3) div 4"

text \<open>How far the total counter is ahead of the diff counter.\<close>

definition token_gap :: "ChatGPTReviewer \<Rightarrow> int" where
  "token_gap r = total_tokens (token_stats r) - diff_tokens (token_stats r)"

section \<open>\<open>post_review_comments\<close>\<close>

text \<open>
  The values \<open>json.loads\<close> returns. A float is kept by its literal text: the model never
  computes with it.
\<close>

datatype json =
  JNull
  | JBool bool
  | JInt int
  | JFloat string
  | JString string
  | JArray "json list"
  | JObject "(string \<times> json) list"

text \<open>The pydantic model \<open>ReviewComment\<close>.\<close>

record ReviewComment =
  Comment :: string
  Path :: "string option"
  StartLine :: int
  EndLine :: int
  Type :: string

text \<open>
  The Python values the function builds itself: the dictionaries passed to
  \<open>mr.discussions.create\<close> and the entries of \<open>error_details\<close>. A dictionary literal is
  the list of its items in the order written.
\<close>

datatype pyval =
  PNone
  | PStr string
  | PInt int
  | PDict "(string \<times> pyval) list"

text \<open>\<open>latest_diff\<close>: the three commit identifiers the positions refer to.\<close>

record DiffRevision =
  base_commit_sha :: string
  start_commit_sha :: string
  head_commit_sha :: string

text \<open>
  What \<open>mr.discussions.create\<close> can do: create the thread, raise
  \<open>GitlabCreateError\<close> (with its \<open>error_message\<close>), or raise something else, which
  \<open>post_review_comments\<close> does not catch.
\<close>

datatype create_result =
  Created
  | GitlabCreateError string
  | CreateRaised py_exception

text \<open>
  The collaborators of \<open>post_review_comments\<close> that are not code of the repository:
  \<^item> \<open>json_loads\<close>: \<open>json.loads\<close>, with \<open>None\<close> for \<open>JSONDecodeError\<close>;
  \<^item> \<open>validate\<close>: \<open>ReviewComment(**comment_data)\<close> on the items of a JSON object, with
    \<open>Inl\<close> the text of the \<open>ValidationError\<close>;
  \<^item> \<open>json_dumps\<close>: \<open>json.dumps(error_details, indent=2)\<close>;
  \<^item> \<open>create\<close>: \<open>mr.discussions.create\<close>; its answer may depend on the requests made
    before, which are its first argument.
\<close>

record externals =
  json_loads :: "string \<Rightarrow> json option"
  validate :: "(string \<times> json) list \<Rightarrow> string + ReviewComment"
  json_dumps :: "pyval list \<Rightarrow> string"
  create :: "pyval list \<Rightarrow> pyval \<Rightarrow> create_result"

text \<open>\<open>s.endswith(suffix)\<close>\<close>

definition endswith :: "string \<Rightarrow> string \<Rightarrow> bool" where
  "endswith s suffix =
     (length suffix \<le> length s \<and> drop (length s - length suffix) s = suffix)"

text \<open>
  The two \<open>if\<close> statements before \<open>json.loads\<close>: after the prefix \<open>```json\<close> (7
  characters) the slice \<open>[8:]\<close> drops 8 characters; after the suffix \<open>```\<close> the slice
  \<open>[:-3]\<close> drops the last 3.
\<close>

definition strip_code_fence :: "string \<Rightarrow> string" where
  "strip_code_fence part_comments =
     (let p1 = (if startswith part_comments ''```json'' then drop 8 part_comments
                else part_comments)
      in if endswith p1 ''```'' then take (length p1 - 3) p1 else p1)"

text \<open>The argument of \<open>mr.discussions.create\<close> for a validated comment.\<close>

definition discussion_payload :: "DiffRevision \<Rightarrow> ReviewComment \<Rightarrow> pyval" where
  "discussion_payload latest_diff comment =
     PDict
      [(''body'', PStr (Comment comment)),
       (''position'', PDict
         [(''base_sha'', PStr (base_commit_sha latest_diff)),
          (''start_sha'', PStr (start_commit_sha latest_diff)),
          (''head_sha'', PStr (head_commit_sha latest_diff)),
          (''position_type'', PStr ''text''),
          (if Type comment = ''new'' then ''new_path'' else ''old_path'',
             (case Path comment of None \<Rightarrow> PNone | Some p \<Rightarrow> PStr p)),
          (if Type comment = ''new'' then ''new_line'' else ''old_line'',
             PInt (EndLine comment))])]"

text \<open>The three kinds of entry appended to \<open>error_details\<close>.\<close>

definition not_a_list_error :: "nat \<Rightarrow> pyval" where
  "not_a_list_error part_index =
     PStr (''Part '' @ str_nat part_index @ '' is not a list of comments.'')"

definition validation_error :: "nat \<Rightarrow> string \<Rightarrow> pyval" where
  "validation_error part_index e =
     PDict [(''part'', PInt (int part_index)), (''error'', PStr e)]"

definition posting_error :: "nat \<Rightarrow> ReviewComment \<Rightarrow> string \<Rightarrow> pyval" where
  "posting_error part_index comment e_error_message =
     (let error_message =
        ''Error posting comment in part '' @ str_nat part_index @ '': '' @ e_error_message
      in PDict
          [(''part'', PInt (int part_index)),
           (''comment'', PStr (Comment comment)),
           (''Path'', (case Path comment of None \<Rightarrow> PNone | Some p \<Rightarrow> PStr p)),
           (''StartLine'', PInt (StartLine comment)),
           (''EndLine'', PInt (EndLine comment)),
           (''Type'', PStr (Type comment)),
           (''Error'', PStr error_message)])"

text \<open>
  The state of a call: the list \<open>error_details\<close>, and the requests made to the remote
  so far (not a variable of the source: the effect of the call on the merge request).
\<close>

record post_state =
  error_details :: "pyval list"
  requests :: "pyval list"

text \<open>
  The inner loop \<open>for comment_data in part_comments\<close>. The result is \<open>None\<close> when the
  loop ran to its end and the exception that left it otherwise. \<open>**comment_data\<close> on a
  value that is no JSON object raises \<open>TypeError\<close>, which is not caught.
\<close>

fun post_comments ::
  "externals \<Rightarrow> DiffRevision \<Rightarrow> nat \<Rightarrow> json list \<Rightarrow> post_state
     \<Rightarrow> py_exception option \<times> post_state" where
  "post_comments ext latest_diff part_index [] st = (None, st)"
| "post_comments ext latest_diff part_index (comment_data # rest) st =
     (case comment_data of
        JObject kvs \<Rightarrow>
          (case validate ext kvs of
             Inl e \<Rightarrow>
               post_comments ext latest_diff part_index rest
                 (st\<lparr>error_details := error_details st @ [validation_error part_index e]\<rparr>)
           | Inr comment \<Rightarrow>
               (case create ext (requests st) (discussion_payload latest_diff comment) of
                  Created \<Rightarrow>
                    post_comments ext latest_diff part_index rest
                      (st\<lparr>requests := requests st @ [discussion_payload latest_diff comment]\<rparr>)
                | GitlabCreateError msg \<Rightarrow>
                    post_comments ext latest_diff part_index rest
                      (st\<lparr>requests := requests st @ [discussion_payload latest_diff comment],
                          error_details :=
                            error_details st @ [posting_error part_index comment msg]\<rparr>)
                | CreateRaised ex \<Rightarrow>
                    (Some ex,
                     st\<lparr>requests := requests st @ [discussion_payload latest_diff comment]\<rparr>)))
      | _ \<Rightarrow> (Some TypeError, st))"

text \<open>How the outer loop ends: at its end, by the \<open>return\<close> in it, or by an exception.\<close>

datatype loop_exit =
  Finished
  | Returned string
  | Raised py_exception

text \<open>The outer loop \<open>for part_index, part_comments in enumerate(review_comments, start=1)\<close>.\<close>

fun post_parts ::
  "externals \<Rightarrow> DiffRevision \<Rightarrow> nat \<Rightarrow> string list \<Rightarrow> post_state
     \<Rightarrow> loop_exit \<times> post_state" where
  "post_parts ext latest_diff part_index [] st = (Finished, st)"
| "post_parts ext latest_diff part_index (part_comments # rest) st =
     (case json_loads ext (strip_code_fence part_comments) of
        None \<Rightarrow> (Returned ''Invalid JSON format in ChatGPT response.'', st)
      | Some (JArray comments) \<Rightarrow>
          (case post_comments ext latest_diff part_index comments st of
             (Some ex, st') \<Rightarrow> (Raised ex, st')
           | (None, st') \<Rightarrow> post_parts ext latest_diff (Suc part_index) rest st')
      | Some _ \<Rightarrow>
          post_parts ext latest_diff (Suc part_index) rest
            (st\<lparr>error_details := error_details st @ [not_a_list_error part_index]\<rparr>))"

text \<open>
  \<open>post_review_comments(mr, review_comments, latest_diff)\<close>, for \<open>review_comments\<close> a
  list of strings, as \<open>get_review\<close> returns it (the two \<open>isinstance\<close> checks at the top
  are for other types). The result is the returned \<open>Optional[str]\<close> or the exception, and
  the final state.
\<close>

definition post_review_comments ::
  "externals \<Rightarrow> string list \<Rightarrow> DiffRevision \<Rightarrow> (py_exception + string option) \<times> post_state" where
  "post_review_comments ext review_comments latest_diff =
     (case post_parts ext latest_diff 1 review_comments \<lparr>error_details = [], requests = []\<rparr> of
        (Raised ex, st) \<Rightarrow> (Inl ex, st)
      | (Returned msg, st) \<Rightarrow> (Inr (Some msg), st)
      | (Finished, st) \<Rightarrow>
          (if error_details st \<noteq> []
           then (Inr (Some (''Failed to post some comments due to errors: ''
                   @ json_dumps ext (error_details st))), st)
           else (Inr None, st)))"

section \<open>Notions used in the statements about posting\<close>

definition is_object :: "json \<Rightarrow> bool" where
  "is_object v = (case v of JObject kvs \<Rightarrow> True | _ \<Rightarrow> False)"

text \<open>The comment an element validates to, if it does; and whether it fails validation.\<close>

definition valid_of :: "externals \<Rightarrow> json \<Rightarrow> ReviewComment list" where
  "valid_of ext v =
     (case v of
        JObject kvs \<Rightarrow> (case validate ext kvs of Inl e \<Rightarrow> [] | Inr c \<Rightarrow> [c])
      | _ \<Rightarrow> [])"

definition valid_comments :: "externals \<Rightarrow> json list \<Rightarrow> ReviewComment list" where
  "valid_comments ext vs = concat (map (valid_of ext) vs)"

definition is_invalid :: "externals \<Rightarrow> json \<Rightarrow> bool" where
  "is_invalid ext v =
     (case v of
        JObject kvs \<Rightarrow> (case validate ext kvs of Inl e \<Rightarrow> True | Inr c \<Rightarrow> False)
      | _ \<Rightarrow> False)"

definition invalid_count :: "externals \<Rightarrow> json list \<Rightarrow> nat" where
  "invalid_count ext vs = length (filter (is_invalid ext) vs)"

text \<open>The answers of the remote to a sequence of requests made after the history \<open>hist\<close>.\<close>

fun outcomes :: "(pyval list \<Rightarrow> pyval \<Rightarrow> create_result) \<Rightarrow> pyval list \<Rightarrow> pyval list
    \<Rightarrow> create_result list" where
  "outcomes cr hist [] = []"
| "outcomes cr hist (p # ps) = cr hist p # outcomes cr (hist @ [p]) ps"

definition rejected_count :: "create_result list \<Rightarrow> nat" where
  "rejected_count rs = length (filter (\<lambda>r. r \<noteq> Created) rs)"

text \<open>The remote raises nothing but \<open>GitlabCreateError\<close>.\<close>

definition only_rejects :: "externals \<Rightarrow> bool" where
  "only_rejects ext = (\<forall>hist p ex. create ext hist p \<noteq> CreateRaised ex)"

text \<open>A response part that decodes to an array of objects, and its elements.\<close>

definition part_elements :: "externals \<Rightarrow> string \<Rightarrow> json list" where
  "part_elements ext part_comments =
     (case json_loads ext (strip_code_fence part_comments) of
        Some (JArray vs) \<Rightarrow> vs
      | _ \<Rightarrow> [])"

definition object_array_part :: "externals \<Rightarrow> string \<Rightarrow> bool" where
  "object_array_part ext part_comments =
     (case json_loads ext (strip_code_fence part_comments) of
        Some (JArray vs) \<Rightarrow> list_all is_object vs
      | _ \<Rightarrow> False)"

definition all_elements :: "externals \<Rightarrow> string list \<Rightarrow> json list" where
  "all_elements ext parts = concat (map (part_elements ext) parts)"

text \<open>A fenced code block around a text: with the info string \<open>json\<close>, and without one.\<close>

definition fence_json :: "string \<Rightarrow> string" where
  "fence_json s = ''```json'' @ CHR 0x0A # s @ CHR 0x0A # ''```''"

definition fence_plain :: "string \<Rightarrow> string" where
  "fence_plain s = ''```'' @ CHR 0x0A # s @ CHR 0x0A # ''```''"

text \<open>A decoder for which a newline at the end of the text makes no difference.\<close>

definition ignores_final_newline :: "externals \<Rightarrow> bool" where
  "ignores_final_newline ext = (\<forall>s. json_loads ext (s @ [CHR 0x0A]) = json_loads ext s)"

section \<open>Sample collaborators for concrete evaluations\<close>

text \<open>
  A validator that accepts an object when the four required fields are there with a
  string, an integer, an integer and a string, and \<open>Path\<close> is absent, null or a string.
\<close>

definition sample_validate :: "(string \<times> json) list \<Rightarrow> string + ReviewComment" where
  "sample_validate kvs =
     (case (map_of kvs ''Comment'', map_of kvs ''StartLine'', map_of kvs ''EndLine'',
            map_of kvs ''Type'') of
        (Some (JString c), Some (JInt s), Some (JInt e), Some (JString t)) \<Rightarrow>
          (case map_of kvs ''Path'' of
             None \<Rightarrow> Inr \<lparr>Comment = c, Path = None, StartLine = s, EndLine = e, Type = t\<rparr>
           | Some JNull \<Rightarrow> Inr \<lparr>Comment = c, Path = None, StartLine = s, EndLine = e, Type = t\<rparr>
           | Some (JString p) \<Rightarrow>
               Inr \<lparr>Comment = c, Path = Some p, StartLine = s, EndLine = e, Type = t\<rparr>
           | Some _ \<Rightarrow> Inl ''Path: invalid'')
      | _ \<Rightarrow> Inl ''field required'')"

text \<open>Two comment objects: a complete one, and one without \<open>EndLine\<close>.\<close>

definition good_comment :: json where
  "good_comment =
     JObject [(''Path'', JString ''a.py''), (''StartLine'', JInt 1), (''EndLine'', JInt 2),
              (''Type'', JString ''new''), (''Comment'', JString ''fix'')]"

definition bad_comment :: json where
  "bad_comment =
     JObject [(''Path'', JString ''a.py''), (''StartLine'', JInt 1),
              (''Type'', JString ''new''), (''Comment'', JString ''fix'')]"

text \<open>
  A decoder that knows three texts, each with any number of newlines at its end: \<open>good\<close>
  is an array with the complete comment, \<open>mixed\<close> an array with the incomplete comment
  between two complete ones, \<open>[]\<close> the empty array. Everything else is a decode error.
  On \<open>[]\<close> and on a text that starts with a backquote it answers as \<open>json.loads\<close>
  does.
\<close>

definition drop_final_newlines :: "string \<Rightarrow> string" where
  "drop_final_newlines s = rev (dropWhile (\<lambda>c. c = CHR 0x0A) (rev s))"

definition sample_loads :: "string \<Rightarrow> json option" where
  "sample_loads s =
     (if drop_final_newlines s = ''good'' then Some (JArray [good_comment])
      else if drop_final_newlines s = ''mixed''
        then Some (JArray [good_comment, bad_comment, good_comment])
      else if drop_final_newlines s = ''[]'' then Some (JArray [])
      else None)"

text \<open>A remote that accepts every request, and one that rejects every second request.\<close>

definition create_always :: "pyval list \<Rightarrow> pyval \<Rightarrow> create_result" where
  "create_always hist p = Created"

definition create_alternating :: "pyval list \<Rightarrow> pyval \<Rightarrow> create_result" where
  "create_alternating hist p =
     (if even (length hist) then Created else GitlabCreateError ''400 Bad request'')"

definition sample_dumps :: "pyval list \<Rightarrow> string" where
  "sample_dumps errs = str_nat (length errs) @ '' errors''"

definition sample_ext :: "(pyval list \<Rightarrow> pyval \<Rightarrow> create_result) \<Rightarrow> externals" where
  "sample_ext cr =
     \<lparr>json_loads = sample_loads, validate = sample_validate, json_dumps = sample_dumps,
      create = cr\<rparr>"

definition sample_revision :: DiffRevision where
  "sample_revision = \<lparr>base_commit_sha = ''b0'', start_commit_sha = ''s0'', head_commit_sha = ''h0''\<rparr>"

text \<open>
  The sample decoder with a fourth text: \<open>scalar\<close> is an array with the number 1
  between two complete comments.
\<close>

definition sample_loads_scalar :: "string \<Rightarrow> json option" where
  "sample_loads_scalar s =
     (if drop_final_newlines s = ''scalar''
      then Some (JArray [good_comment, JInt 1, good_comment])
      else sample_loads s)"

definition sample_ext_scalar :: "(pyval list \<Rightarrow> pyval \<Rightarrow> create_result) \<Rightarrow> externals" where
  "sample_ext_scalar cr =
     \<lparr>json_loads = sample_loads_scalar, validate = sample_validate, json_dumps = sample_dumps,
      create = cr\<rparr>"

section \<open>Chunk planning: order and completeness\<close>

lemma chunk_step_contents:
  "concat (chunks (chunk_step tok mx base st d)) @ current_chunk (chunk_step tok mx base st d)
     = concat (chunks st) @ current_chunk st @ [d]"
  by (simp add: chunk_step_def Let_def)

lemma chunk_loop_contents:
  "concat (chunks (foldl (chunk_step tok mx base) st ds))
       @ current_chunk (foldl (chunk_step tok mx base) st ds)
     = concat (chunks st) @ current_chunk st @ ds"
proof (induction ds arbitrary: st)
  case Nil
  show ?case by simp
next
  case (Cons d ds)
  have "concat (chunks (foldl (chunk_step tok mx base) (chunk_step tok mx base st d) ds))
          @ current_chunk (foldl (chunk_step tok mx base) (chunk_step tok mx base st d) ds)
        = (concat (chunks (chunk_step tok mx base st d))
          @ current_chunk (chunk_step tok mx base st d)) @ ds"
    using Cons.IH [of "chunk_step tok mx base st d"] by simp
  then show ?case
    by (simp add: chunk_step_contents)
qed

lemma chunk_flush_concat: "concat (chunk_flush st) = concat (chunks st) @ current_chunk st"
  by (simp add: chunk_flush_def)

lemma split_into_chunks_flat:
  "concat (split_into_chunks tok diffs max_tokens base_messages) = diffs"
  unfolding split_into_chunks_def chunk_flush_concat chunk_loop_contents
  by (simp add: chunk_init_def)

text \<open>
  Claim C1. A chunk is a list of whole \<open>Diff\<close> values, so no \<open>Diff\<close> is ever cut; and
  for every input list and every ceiling the chunks, concatenated in order, are exactly the
  input list. In particular the chunk lengths add up to the number of input diffs: each
  diff sits in exactly one chunk.
\<close>

theorem split_into_chunks_concat:
  "concat (split_into_chunks tok diffs max_tokens base_messages) = diffs
   \<and> (\<Sum>c\<leftarrow>split_into_chunks tok diffs max_tokens base_messages. length c)
       = length diffs"
proof -
  have "(\<Sum>c\<leftarrow>split_into_chunks tok diffs max_tokens base_messages. length c)
      = length (concat (split_into_chunks tok diffs max_tokens base_messages))"
    by (simp add: length_concat)
  then show ?thesis
    by (simp only: split_into_chunks_flat simp_thms)
qed

section \<open>Chunk planning: the running counter\<close>

lemma chunk_step_eq:
  "chunk_step tok mx base st d =
     (if current_tokens st + diff_cost tok d > mx
      then \<lparr>chunks = chunks st @ [current_chunk st], current_chunk = [d],
            current_tokens = estimate_tokens tok base + diff_cost tok d\<rparr>
      else \<lparr>chunks = chunks st, current_chunk = current_chunk st @ [d],
            current_tokens = current_tokens st + diff_cost tok d\<rparr>)"
  by (simp add: chunk_step_def Let_def)

lemma chunk_loop_shape:
  "current_chunk st \<noteq> [] \<Longrightarrow>
   \<exists>c cs. chunk_flush (foldl (chunk_step tok mx base) st ds)
            = chunks st @ (current_chunk st @ c) # cs"
proof (induction ds arbitrary: st)
  case Nil
  then show ?case by (simp add: chunk_flush_def)
next
  case (Cons d ds)
  let ?st' = "chunk_step tok mx base st d"
  have ne: "current_chunk ?st' \<noteq> []"
    by (simp add: chunk_step_eq)
  from Cons.IH [OF ne] obtain c cs where
    r: "chunk_flush (foldl (chunk_step tok mx base) ?st' ds)
          = chunks ?st' @ (current_chunk ?st' @ c) # cs"
    by blast
  show ?case
  proof (cases "current_tokens st + diff_cost tok d > mx")
    case True
    then have "chunk_flush (foldl (chunk_step tok mx base) st (d # ds))
                 = chunks st @ (current_chunk st @ []) # ((d # c) # cs)"
      using r by (simp add: chunk_step_eq)
    then show ?thesis by blast
  next
    case False
    then have "chunk_flush (foldl (chunk_step tok mx base) st (d # ds))
                 = chunks st @ (current_chunk st @ (d # c)) # cs"
      using r by (simp add: chunk_step_eq)
    then show ?thesis by blast
  qed
qed

subsection \<open>The counter and the result, one diff after the other\<close>

lemma chunk_step_counter:
  "current_tokens st = estimate_tokens tok base + chunk_cost tok (current_chunk st) \<Longrightarrow>
   current_tokens (chunk_step tok mx base st d)
     = estimate_tokens tok base + chunk_cost tok (current_chunk (chunk_step tok mx base st d))"
  by (simp add: chunk_step_eq chunk_cost_def)

lemma chunk_loop_counter:
  "current_tokens st = estimate_tokens tok base + chunk_cost tok (current_chunk st) \<Longrightarrow>
   current_tokens (foldl (chunk_step tok mx base) st ds)
     = estimate_tokens tok base
       + chunk_cost tok (current_chunk (foldl (chunk_step tok mx base) st ds))"
proof (induction ds arbitrary: st)
  case Nil
  then show ?case by simp
next
  case (Cons d ds)
  from Cons.IH [OF chunk_step_counter [OF Cons.prems]] show ?case
    by simp
qed

lemma chunk_loop_current_nonempty:
  "ds \<noteq> [] \<Longrightarrow> current_chunk (foldl (chunk_step tok mx base) st ds) \<noteq> []"
proof (induction ds rule: rev_induct)
  case Nil
  then show ?case by simp
next
  case (snoc d ds)
  show ?case by (simp add: chunk_step_eq)
qed

text \<open>
  After at least one diff the current chunk is the last chunk of the result, and the
  closed chunks are the ones before it.
\<close>

lemma split_into_chunks_state:
  assumes "diffs \<noteq> []"
  shows "split_into_chunks tok diffs mx base
           = chunks (foldl (chunk_step tok mx base) (chunk_init tok base) diffs)
             @ [current_chunk (foldl (chunk_step tok mx base) (chunk_init tok base) diffs)]"
  using chunk_loop_current_nonempty [OF assms, of tok mx base "chunk_init tok base"]
  by (simp add: split_into_chunks_def chunk_flush_def)

lemma running_tokens_last:
  "running_tokens tok diffs mx base
     = estimate_tokens tok base
       + (if diffs = [] then 0 else chunk_cost tok (last (split_into_chunks tok diffs mx base)))"
proof -
  have "current_tokens (chunk_init tok base)
          = estimate_tokens tok base + chunk_cost tok (current_chunk (chunk_init tok base))"
    by (simp add: chunk_init_def chunk_cost_def)
  from chunk_loop_counter [OF this, of mx diffs] show ?thesis
    by (auto simp: running_tokens_def split_into_chunks_state chunk_init_def chunk_cost_def)
qed

lemma split_into_chunks_snoc:
  "split_into_chunks tok (diffs @ [d]) mx base
     = (if running_tokens tok diffs mx base + diff_cost tok d > mx
        then (if diffs = [] then [[]] else split_into_chunks tok diffs mx base) @ [[d]]
        else (if diffs = [] then [[d]]
              else butlast (split_into_chunks tok diffs mx base)
                   @ [last (split_into_chunks tok diffs mx base) @ [d]]))"
proof (cases "diffs = []")
  case True
  then show ?thesis
    by (simp add: split_into_chunks_def running_tokens_def chunk_step_eq chunk_flush_def
        chunk_init_def)
next
  case False
  let ?st = "foldl (chunk_step tok mx base) (chunk_init tok base) diffs"
  have s: "split_into_chunks tok diffs mx base = chunks ?st @ [current_chunk ?st]"
    using False by (rule split_into_chunks_state)
  have "split_into_chunks tok (diffs @ [d]) mx base
          = chunk_flush (chunk_step tok mx base ?st d)"
    by (simp add: split_into_chunks_def)
  then show ?thesis
    using False by (simp add: s running_tokens_def chunk_step_eq chunk_flush_def)
qed

lemma running_tokens_snoc:
  "running_tokens tok (diffs @ [d]) mx base
     = (if running_tokens tok diffs mx base + diff_cost tok d > mx
        then estimate_tokens tok base + diff_cost tok d
        else running_tokens tok diffs mx base + diff_cost tok d)"
  by (simp add: running_tokens_def chunk_step_eq)

lemma split_into_chunks_empty: "split_into_chunks tok [] mx base = []"
  by (simp add: split_into_chunks_def chunk_init_def chunk_flush_def)

text \<open>
  Claim C3. The running counter starts at the cost of the base messages. For each diff, in
  input order: when the counter plus the diff's rendered cost exceeds the ceiling, the
  current chunk is closed (it stays in the result as it is) and a new chunk is started
  with the diff, the counter restarting from the base-message cost; otherwise the diff
  joins the current chunk, the last one of the result. In both cases the diff's cost is
  added, so the counter is always the base cost plus the cost of the current chunk. These
  equations determine the result for every list of diffs. Two diffs costing 100 and 150
  tokens, with ceiling 200 and base cost 20, give the chunks \<open>[[file_one], [file_two]]\<close>.
\<close>

theorem split_into_chunks_running_counter:
  "running_tokens tok [] max_tokens base_messages = estimate_tokens tok base_messages
   \<and> running_tokens tok (diffs @ [d]) max_tokens base_messages
       = (if running_tokens tok diffs max_tokens base_messages + diff_cost tok d > max_tokens
          then estimate_tokens tok base_messages + diff_cost tok d
          else running_tokens tok diffs max_tokens base_messages + diff_cost tok d)
   \<and> running_tokens tok diffs max_tokens base_messages
       = estimate_tokens tok base_messages
         + (if diffs = [] then 0
            else chunk_cost tok (last (split_into_chunks tok diffs max_tokens base_messages)))
   \<and> split_into_chunks tok [] max_tokens base_messages = []
   \<and> split_into_chunks tok (diffs @ [d]) max_tokens base_messages
       = (if running_tokens tok diffs max_tokens base_messages + diff_cost tok d > max_tokens
          then (if diffs = [] then [[]]
                else split_into_chunks tok diffs max_tokens base_messages) @ [[d]]
          else (if diffs = [] then [[d]]
                else butlast (split_into_chunks tok diffs max_tokens base_messages)
                     @ [last (split_into_chunks tok diffs max_tokens base_messages) @ [d]]))
   \<and> (diff_cost tok file_one = 100 \<and> diff_cost tok file_two = 150
        \<and> estimate_tokens tok base_messages = 20
      \<longrightarrow> split_into_chunks tok [file_one, file_two] 200 base_messages = [[file_one], [file_two]])"
proof -
  have r0: "running_tokens tok [] max_tokens base_messages = estimate_tokens tok base_messages"
    by (simp add: running_tokens_def chunk_init_def)
  have sc: "split_into_chunks tok [file_one, file_two] 200 base_messages
              = [[file_one], [file_two]]"
    if "diff_cost tok file_one = 100" "diff_cost tok file_two = 150"
      "estimate_tokens tok base_messages = 20"
    using that
    by (simp add: chunk_step_eq chunk_init_def split_into_chunks_def chunk_flush_def)
  have sc': "diff_cost tok file_one = 100 \<and> diff_cost tok file_two = 150
        \<and> estimate_tokens tok base_messages = 20
      \<longrightarrow> split_into_chunks tok [file_one, file_two] 200 base_messages = [[file_one], [file_two]]"
    using sc by blast
  from r0 running_tokens_snoc [of tok diffs d max_tokens base_messages]
    running_tokens_last [of tok diffs max_tokens base_messages]
    split_into_chunks_empty [of tok max_tokens base_messages]
    split_into_chunks_snoc [of tok diffs d max_tokens base_messages] sc'
  show ?thesis
    by (intro conjI) assumption+
qed

lemma diff_cost_length_file:
  "p \<noteq> [] \<Longrightarrow> diff_cost length (file_of_path p) = int (length p) + 7"
  by (simp add: diff_cost_def summarize_diffs_multiline_def diff_summary_lines_def
      file_of_path_def py_or_def fmt_str_def)

text \<open>Three small files share one chunk: the closes depend on the counter.\<close>

lemma split_into_chunks_groups:
  "split_into_chunks length [file_of_path ''a.py'', file_of_path ''b.py'', file_of_path ''c.py'']
     100 [] = [[file_of_path ''a.py'', file_of_path ''b.py'', file_of_path ''c.py'']]"
  by (simp add: split_into_chunks_def chunk_step_eq chunk_flush_def chunk_init_def
      diff_cost_length_file estimate_tokens_def)

text \<open>
  The scenario at a concrete tokenizer (one token per character), with two diffs whose
  summaries are 100 and 150 characters long and a system prompt of 20 characters.
\<close>

theorem split_into_chunks_running_counter_witness:
  "diff_cost length (file_of_path (replicate 93 CHR ''a'')) = 100
   \<and> diff_cost length (file_of_path (replicate 143 CHR ''b'')) = 150
   \<and> estimate_tokens length [(''system'', replicate 20 CHR ''p'')] = 20
   \<and> split_into_chunks length
        [file_of_path (replicate 93 CHR ''a''), file_of_path (replicate 143 CHR ''b'')] 200
        [(''system'', replicate 20 CHR ''p'')]
      = [[file_of_path (replicate 93 CHR ''a'')], [file_of_path (replicate 143 CHR ''b'')]]"
proof -
  have a: "diff_cost length (file_of_path (replicate 93 CHR ''a'')) = 100"
    by (simp add: diff_cost_length_file)
  have b: "diff_cost length (file_of_path (replicate 143 CHR ''b'')) = 150"
    by (simp add: diff_cost_length_file)
  have c: "estimate_tokens length [(''system'', replicate 20 CHR ''p'')] = 20"
    by (simp add: estimate_tokens_def)
  show ?thesis
    using a b c
      split_into_chunks_running_counter [where tok = length
        and base_messages = "[(''system'', replicate 20 CHR ''p'')]"
        and file_one = "file_of_path (replicate 93 CHR ''a'')"
        and file_two = "file_of_path (replicate 143 CHR ''b'')"]
    by blast
qed

text \<open>
  Claim C10. When a diff triggers a close while the current chunk is still empty, the
  chunk pushed to the result is the empty list. In particular, when the base-message cost
  plus the cost of the first diff exceeds the ceiling, the result starts with an empty
  chunk, followed by the chunk that begins with that diff.
\<close>

theorem split_into_chunks_empty_chunk:
  "(current_chunk st = [] \<and> current_tokens st + diff_cost tok d > max_tokens
      \<longrightarrow> chunks (chunk_step tok max_tokens base_messages st d) = chunks st @ [[]])
   \<and> (estimate_tokens tok base_messages + diff_cost tok d > max_tokens
      \<longrightarrow> (\<exists>c cs. split_into_chunks tok (d # ds) max_tokens base_messages
                    = [] # (d # c) # cs))"
proof -
  have "\<exists>c cs. split_into_chunks tok (d # ds) max_tokens base_messages
                    = [] # (d # c) # cs"
    if over: "estimate_tokens tok base_messages + diff_cost tok d > max_tokens"
  proof -
    let ?st = "chunk_step tok max_tokens base_messages (chunk_init tok base_messages) d"
    have s: "chunks ?st = [[]]" "current_chunk ?st = [d]"
      using over by (simp_all add: chunk_step_eq chunk_init_def)
    then have "current_chunk ?st \<noteq> []" by simp
    from chunk_loop_shape [OF this, of tok max_tokens base_messages ds]
    show ?thesis
      by (simp add: split_into_chunks_def s)
  qed
  then show ?thesis
    by (simp add: chunk_step_eq)
qed

text \<open>With a ceiling of 5 tokens and two small files, the plan is \<open>[[], [a.py], [b.py]]\<close>.\<close>

theorem split_into_chunks_empty_chunk_witness:
  "current_chunk (chunk_init length []) = []
   \<and> current_tokens (chunk_init length []) + diff_cost length (file_of_path ''a.py'') > 5
   \<and> chunks (chunk_step length 5 [] (chunk_init length []) (file_of_path ''a.py'')) = [[]]
   \<and> estimate_tokens length [] + diff_cost length (file_of_path ''a.py'') > 5
   \<and> split_into_chunks length [file_of_path ''a.py'', file_of_path ''b.py''] 5 []
       = [[], [file_of_path ''a.py''], [file_of_path ''b.py'']]"
proof -
  have a: "diff_cost length (file_of_path ''a.py'') = 11"
    by (simp add: diff_cost_length_file)
  have b: "diff_cost length (file_of_path ''b.py'') = 11"
    by (simp add: diff_cost_length_file)
  have e: "estimate_tokens length [] = 0"
    by (simp add: estimate_tokens_def)
  have i: "current_chunk (chunk_init length []) = []" "chunks (chunk_init length []) = []"
    "current_tokens (chunk_init length []) = 0"
    by (simp_all add: chunk_init_def e)
  have s: "split_into_chunks length [file_of_path ''a.py'', file_of_path ''b.py''] 5 []
       = [[], [file_of_path ''a.py''], [file_of_path ''b.py'']]"
    by (simp add: split_into_chunks_def chunk_step_eq chunk_flush_def a b e i)
  show ?thesis
    using split_into_chunks_empty_chunk [where st = "chunk_init length []" and tok = length
        and d = "file_of_path ''a.py''" and max_tokens = 5 and base_messages = "[]"
        and ds = "[file_of_path ''b.py'']"] a e i s
    by simp
qed

section \<open>The diff parser\<close>

lemmas parser_eval =
  parse_diff_block_def splitlines_def line_boundary_def parse_line_def header_match_def
  match_lit_def startswith_def match_digits_def match_opt_count_def is_digit_def incr_def
  int_of_digits_def digit_val_def

subsection \<open>What one line does\<close>

lemma header_match_at_sign: "header_match line = Some h \<Longrightarrow> startswith line ''@@ -''"
  by (auto simp: header_match_def match_lit_def split: option.splits if_splits)

lemma header_not_content:
  assumes "header_match line = Some h"
  shows "\<not> startswith line '' ''" "\<not> startswith line ''-''" "\<not> startswith line ''+''"
proof -
  from header_match_at_sign [OF assms] obtain r where "line = CHR ''@'' # r"
    by (cases line) (auto simp: startswith_def)
  then show "\<not> startswith line '' ''" "\<not> startswith line ''-''" "\<not> startswith line ''+''"
    by (simp_all add: startswith_def)
qed

text \<open>A recognised header resets both counters and emits nothing.\<close>

lemma parse_line_header:
  "header_match line = Some (ol, nl) \<Longrightarrow>
   parse_line st line = Inr (st\<lparr>ps_old_line := Some ol, ps_new_line := Some nl\<rparr>)"
  by (simp add: parse_line_def)

text \<open>A line that is no header and has none of the three prefixes is dropped.\<close>

lemma parse_line_dropped:
  "header_match line = None \<Longrightarrow> \<not> startswith line '' '' \<Longrightarrow> \<not> startswith line ''-''
   \<Longrightarrow> \<not> startswith line ''+'' \<Longrightarrow> parse_line st line = Inr st"
  by (simp add: parse_line_def)

lemma startswith_prefixes_differ:
  "startswith line '' '' \<Longrightarrow> \<not> startswith line ''-'' \<and> \<not> startswith line ''+''"
  "startswith line ''-'' \<Longrightarrow> \<not> startswith line ''+''"
  by (cases line; simp add: startswith_def)+

text \<open>With both counters set, a line never raises, and moves each counter by 0 or 1.\<close>

lemma parse_line_counters:
  assumes "ps_old_line st = Some ol" "ps_new_line st = Some nl" "header_match line = None"
  shows "\<exists>st'. parse_line st line = Inr st'
          \<and> ps_old_line st' = Some (ol + (if moves_old line then 1 else 0))
          \<and> ps_new_line st' = Some (nl + (if moves_new line then 1 else 0))
          \<and> unchanged_count (ps_parsed_lines st')
              = unchanged_count (ps_parsed_lines st) + (if startswith line '' '' then 1 else 0)"
  using assms startswith_prefixes_differ [of line]
  by (auto simp: parse_line_def incr_def moves_old_def moves_new_def unchanged_count_def)

lemma parse_line_set:
  assumes "ps_old_line st \<noteq> None" "ps_new_line st \<noteq> None"
  shows "\<exists>st'. parse_line st line = Inr st' \<and> ps_old_line st' \<noteq> None \<and> ps_new_line st' \<noteq> None"
proof (cases "header_match line")
  case None
  from assms obtain ol nl where "ps_old_line st = Some ol" "ps_new_line st = Some nl"
    by auto
  from parse_line_counters [OF this None] show ?thesis
    by auto
next
  case (Some h)
  then show ?thesis
    by (cases h) (simp add: parse_line_header)
qed

lemma parse_line_unchanged:
  assumes "parse_line st line = Inr st'"
  shows "unchanged_count (ps_parsed_lines st')
           = unchanged_count (ps_parsed_lines st) + (if startswith line '' '' then 1 else 0)"
proof (cases "header_match line")
  case None
  with assms startswith_prefixes_differ [of line] show ?thesis
    by (auto simp: parse_line_def incr_def unchanged_count_def
        split: if_splits option.splits)
next
  case (Some h)
  with assms header_not_content(1) [OF Some] show ?thesis
    by (cases h) (auto simp: parse_line_header)
qed

subsection \<open>What the loop does\<close>

text \<open>Whenever the parser returns, it has emitted one unchanged line per space-prefixed line.\<close>

lemma parse_lines_unchanged:
  "parse_lines st ls = Inr st' \<Longrightarrow>
   unchanged_count (ps_parsed_lines st')
     = unchanged_count (ps_parsed_lines st) + space_prefixed ls"
proof (induction ls arbitrary: st)
  case Nil
  then show ?case by (simp add: space_prefixed_def)
next
  case (Cons l ls)
  then obtain st1 where s: "parse_line st l = Inr st1" "parse_lines st1 ls = Inr st'"
    by (auto split: sum.splits)
  from Cons.IH [OF s(2)] parse_line_unchanged [OF s(1)] show ?case
    by (simp add: space_prefixed_def)
qed

lemma parse_diff_block_unchanged:
  "parse_diff_block diff_block = Inr pls \<Longrightarrow>
   unchanged_count pls = space_prefixed (splitlines diff_block)"
  using parse_lines_unchanged
    [of "\<lparr>ps_parsed_lines = [], ps_old_line = None, ps_new_line = None\<rparr>"
      "splitlines diff_block"]
  by (auto simp: parse_diff_block_def unchanged_count_def split: sum.splits)

text \<open>Once both counters are set, the rest of the block is parsed without an exception.\<close>

lemma parse_lines_set:
  "ps_old_line st \<noteq> None \<Longrightarrow> ps_new_line st \<noteq> None \<Longrightarrow> \<exists>st'. parse_lines st ls = Inr st'"
proof (induction ls arbitrary: st)
  case Nil
  show ?case by simp
next
  case (Cons l ls)
  from parse_line_set [OF Cons.prems, of l] obtain st1 where
    s: "parse_line st l = Inr st1" "ps_old_line st1 \<noteq> None" "ps_new_line st1 \<noteq> None"
    by blast
  from Cons.IH [OF s(2) s(3)] s(1) show ?case
    by simp
qed

text \<open>
  Inside a hunk (a run of lines with no recognised header) the old counter grows by the
  number of unchanged and removed lines, the new counter by the number of unchanged and
  added lines.
\<close>

lemma parse_lines_hunk:
  assumes "\<forall>l \<in> set ls. header_match l = None"
    and "ps_old_line st = Some ol" "ps_new_line st = Some nl"
  shows "\<exists>st'. parse_lines st ls = Inr st'
          \<and> ps_old_line st' = Some (ol + int (length (filter moves_old ls)))
          \<and> ps_new_line st' = Some (nl + int (length (filter moves_new ls)))"
  using assms
proof (induction ls arbitrary: st ol nl)
  case Nil
  then show ?case by simp
next
  case (Cons l ls)
  from Cons.prems have h: "header_match l = None" by simp
  from parse_line_counters [OF Cons.prems(2) Cons.prems(3) h] obtain st1 where
    s: "parse_line st l = Inr st1"
       "ps_old_line st1 = Some (ol + (if moves_old l then 1 else 0))"
       "ps_new_line st1 = Some (nl + (if moves_new l then 1 else 0))"
    by blast
  from Cons.prems have "\<forall>l \<in> set ls. header_match l = None" by simp
  from Cons.IH [OF this s(2) s(3)] s(1) show ?case
    by auto
qed

text \<open>A block with one recognised header: three kinds of line, numbered from 1.\<close>

lemma parse_diff_block_example:
  "parse_diff_block ''@@ -1,2 +1,3 @@\<newline> line1\<newline>-old2\<newline>+new2\<newline>+new3''
     = Inr [\<lparr>content = ''line1'', old_line = Some 1, new_line = Some 1, type = ''none''\<rparr>,
            \<lparr>content = ''old2'', old_line = Some 2, new_line = None, type = ''old''\<rparr>,
            \<lparr>content = ''new2'', old_line = None, new_line = Some 2, type = ''new''\<rparr>,
            \<lparr>content = ''new3'', old_line = None, new_line = Some 3, type = ''new''\<rparr>]"
  by (simp add: parser_eval)

subsection \<open>Headers without an old count, and content before the first header\<close>

text \<open>
  Claim C6 fails on the code. The pattern makes the new count optional, \<open>(?:,\d+)?\<close>, but
  asks for the old count, \<open>,\d+\<close>: a header that omits the old count, as \<open>@@ -5 +3 @@\<close>,
  is not matched (while \<open>@@ -5,1 +3 @@\<close> is). As the first line of a block its content
  lines then meet counters that are still \<open>None\<close>, and the call raises; after an earlier
  header the counters are not reset to 5 and 3 but run on from the earlier hunk.
\<close>

theorem parse_diff_block_header_without_old_count:
  "header_match ''@@ -5 +3 @@'' = None
   \<and> header_match ''@@ -5,1 +3 @@'' = Some (5, 3)
   \<and> parse_diff_block ''@@ -5 +3 @@\<newline>-old\<newline>+new'' = Inl TypeError
   \<and> parse_diff_block
        ''@@ -1,1 +1,1 @@\<newline>-a\<newline>+b\<newline>@@ -5 +3 @@\<newline>-old\<newline>+new''
      = Inr [\<lparr>content = ''a'', old_line = Some 1, new_line = None, type = ''old''\<rparr>,
             \<lparr>content = ''b'', old_line = None, new_line = Some 1, type = ''new''\<rparr>,
             \<lparr>content = ''old'', old_line = Some 2, new_line = None, type = ''old''\<rparr>,
             \<lparr>content = ''new'', old_line = None, new_line = Some 2, type = ''new''\<rparr>]"
  by (simp add: parser_eval)

text \<open>
  Claim C7 fails on the code. Lines with none of the prefixes are dropped
  (\<open>parse_line_dropped\<close>), but a content line before the first recognised header is
  fatal: the counters are still \<open>None\<close> and \<open>old_line += 1\<close> (or \<open>new_line += 1\<close>)
  raises \<open>TypeError\<close>. This happens for a lone context line and for a diff that
  starts with the usual \<open>---\<close> and \<open>+++\<close> file header lines.
\<close>

theorem parse_diff_block_content_before_header:
  "parse_diff_block '' line1'' = Inl TypeError
   \<and> parse_diff_block ''+added'' = Inl TypeError
   \<and> parse_diff_block
        ''--- a/x.py\<newline>+++ b/x.py\<newline>@@ -1,2 +1,2 @@\<newline> a\<newline>-b\<newline>+c''
      = Inl TypeError"
  by (simp add: parser_eval)

text \<open>
  Claim C2 fails on the code, by the defect of claim C6. The block below is a unified diff
  with one hunk (a second line added to a file of one line: the old count 1 is omitted).
  It has one space-prefixed line, but the parser does not recognise the header and raises
  at that line, so no unchanged line is emitted. Whenever the parser does return, the
  count is right (\<open>parse_diff_block_unchanged\<close>) and the counters move as the claim says
  (\<open>parse_lines_hunk\<close>).
\<close>

theorem parse_diff_block_unchanged_count_fails:
  "space_prefixed (splitlines ''@@ -1 +1,2 @@\<newline> a\<newline>+b'') = 1
   \<and> parse_diff_block ''@@ -1 +1,2 @@\<newline> a\<newline>+b'' = Inl TypeError"
  by (simp add: parser_eval space_prefixed_def)

section \<open>Token statistics of \<open>get_review\<close>\<close>

subsection \<open>What a call leaves unchanged\<close>



text \<open>An invariant of every attempt is an invariant of the decorated call.\<close>

lemma retry_on_exception_invariant:
  assumes step: "\<And>s res s'. Q s \<Longrightarrow> func s = (res, s') \<Longrightarrow> Q s'"
  shows "Q s \<Longrightarrow> Q (snd (retry_on_exception n func s))"
proof (induction n arbitrary: s)
  case 0
  then show ?case by simp
next
  case (Suc n)
  obtain res s1 where f: "func s = (res, s1)"
    by (cases "func s")
  from step [OF Suc.prems f] have q: "Q s1" .
  show ?case
  proof (cases res)
    case (Inl e)
    with f Suc.IH [OF q] show ?thesis by simp
  next
    case (Inr v)
    with f q show ?thesis by simp
  qed
qed



subsection \<open>What a call adds\<close>





subsection \<open>The statistics after a call\<close>





subsection \<open>The inequality and the tokenizer\<close>

text \<open>
  Whether the total counter stays ahead of the diff counter by \<open>static_tokens\<close> after a
  call that processed a chunk depends on how the tokenizer counts the joined message text.
  With one token per four characters, rounded up, a prompt of 13 characters costs 4
  tokens, the summary of the file \<open>ab\<close> (9 characters) costs 3, and the message text of
  23 characters costs 6: after the call the total is below the sum of the two others.
\<close>

lemma get_review_four_chars_per_token:
  "token_stats (snd (get_review four_chars_per_token send_empty_array [file_of_path ''ab''] ''''
       (reviewer_init four_chars_per_token 100 ''Review this!!'')))
     = \<lparr>total_tokens = 6, static_tokens = 4, diff_tokens = 3\<rparr>"
proof -
  have "retry_on_exception 5 f r
          = (case f r of (Inr v, s') \<Rightarrow> (Inr v, s')
             | (Inl e, s') \<Rightarrow> retry_on_exception 4 f s')"
    for f :: "ChatGPTReviewer \<Rightarrow> (py_exception + string list) \<times> ChatGPTReviewer" and r
    using retry_on_exception.simps(2) [of 4 f r] by simp
  then show ?thesis
    by (simp add: get_review_def get_review_body_def reviewer_init_def Let_def
        four_chars_per_token_def send_empty_array_def base_messages_of_def
        split_into_chunks_def chunk_step_eq chunk_init_def chunk_flush_def diff_cost_def
        estimate_tokens_def summarize_diffs_multiline_def diff_summary_lines_def
        file_of_path_def py_or_def fmt_str_def)
qed

text \<open>
  For a tokenizer that counts a newline-joined text at no less than the sum of its parts,
  every processed chunk widens the gap between the two counters by at least the cost of
  the prompt.
\<close>

lemma message_text_cost:
  assumes "newline_superadditive tok"
  shows "int (tok p) + int (tok s)
           \<le> int (tok (join_lines (map snd (base_messages_of p td @ [(''user'', s)]))))"
proof (cases "td = []")
  case True
  from assms have "tok p + tok s \<le> tok (p @ CHR 0x0A # s)"
    by (simp add: newline_superadditive_def)
  with True show ?thesis
    by (simp add: base_messages_of_def)
next
  case False
  let ?t = "''Task Details: '' @ td"
  from assms have "tok p + tok (?t @ CHR 0x0A # s) \<le> tok (p @ CHR 0x0A # ?t @ CHR 0x0A # s)"
    unfolding newline_superadditive_def by blast
  moreover from assms have "tok ?t + tok s \<le> tok (?t @ CHR 0x0A # s)"
    unfolding newline_superadditive_def by blast
  ultimately have "tok p + tok s \<le> tok (p @ CHR 0x0A # ?t @ CHR 0x0A # s)"
    by linarith
  with False show ?thesis
    by (simp add: base_messages_of_def)
qed

text \<open>Every processed chunk widens the gap by at least the cost of the prompt.\<close>

lemma process_chunks_gap:
  "newline_superadditive tok \<Longrightarrow>
   process_chunks tok send (base_messages_of p td) cs reviews r = (res, r') \<Longrightarrow>
   token_gap r + (if cs = [] then 0 else int (tok p)) \<le> token_gap r'"
proof (induction cs arbitrary: reviews r)
  case Nil
  then show ?case by simp
next
  case (Cons chunk rest)
  let ?s = "summarize_diffs_multiline chunk"
  let ?m = "base_messages_of p td @ [(''user'', ?s)]"
  let ?r1 = "r\<lparr>token_stats := token_stats r
      \<lparr>diff_tokens := diff_tokens (token_stats r) + int (tok ?s),
        total_tokens := total_tokens (token_stats r) + int (tok (join_lines (map snd ?m)))\<rparr>,
      api_calls := Suc (api_calls r)\<rparr>"
  from message_text_cost [OF Cons.prems(1), of p ?s td]
  have g1: "token_gap r + int (tok p) \<le> token_gap ?r1"
    by (simp add: token_gap_def)
  show ?case
  proof (cases "send (api_calls r) ?m")
    case (Inl e)
    with Cons.prems(2) have "r' = ?r1"
      by (simp add: Let_def)
    with g1 show ?thesis by simp
  next
    case (Inr response)
    with Cons.prems(2) have
      p: "process_chunks tok send (base_messages_of p td) rest (reviews @ [response]) ?r1
            = (res, r')"
      by (simp add: Let_def)
    have "token_gap ?r1 + (if rest = [] then 0 else int (tok p)) \<le> token_gap r'"
      using Cons.IH [OF Cons.prems(1) p] .
    with g1 show ?thesis
      by (simp split: if_splits)
  qed
qed

lemma get_review_body_gap:
  assumes "newline_superadditive tok"
    and "get_review_body tok send diffs td r = (res, r')"
  shows "token_gap r + (if diffs = [] then 0 else int (tok (prompt_message r))) \<le> token_gap r'"
proof -
  let ?base = "base_messages_of (prompt_message r) td"
  let ?cs = "split_into_chunks tok diffs (max_tokens_per_chunk r) ?base"
  have ne: "diffs \<noteq> [] \<Longrightarrow> ?cs \<noteq> []"
    using split_into_chunks_flat [of tok diffs "max_tokens_per_chunk r" ?base]
    by auto
  from assms(2) have "process_chunks tok send ?base ?cs [] r = (res, r')"
    by (simp add: get_review_body_def Let_def)
  from process_chunks_gap [OF assms(1) this] ne show ?thesis
    by (auto split: if_splits)
qed

lemma get_review_gap:
  assumes sup: "newline_superadditive tok"
  shows "token_gap r + (if diffs = [] then 0 else int (tok (prompt_message r)))
           \<le> token_gap (snd (get_review tok send diffs td r))"
proof -
  let ?f = "get_review_body tok send diffs td"
  define g where "g = token_gap r + (if diffs = [] then 0 else int (tok (prompt_message r)))"
  let ?Q = "\<lambda>s. g \<le> token_gap s"
  have keep: "?Q s'" if "?Q s" "?f s = (res, s')" for s res s'
  proof -
    from get_review_body_gap [OF sup that(2)] have "token_gap s \<le> token_gap s'"
      by (simp split: if_splits)
    with that(1) show ?thesis by simp
  qed
  obtain res r1 where f: "?f r = (res, r1)"
    by (cases "?f r")
  from get_review_body_gap [OF sup f] have q1: "?Q r1"
    by (simp only: g_def)
  have rest: "?Q (snd (retry_on_exception 4 ?f r1))"
    using keep q1 by (rule retry_on_exception_invariant [where Q = ?Q])
  have "retry_on_exception 5 ?f r
          = (case ?f r of (Inr v, s') \<Rightarrow> (Inr v, s')
             | (Inl e, s') \<Rightarrow> retry_on_exception 4 ?f s')"
    using retry_on_exception.simps(2) [of 4 ?f r] by simp
  then have "snd (get_review tok send diffs td r)
          = (case res of Inr v \<Rightarrow> r1 | Inl e \<Rightarrow> snd (retry_on_exception 4 ?f r1))"
    by (simp add: get_review_def f split: sum.splits)
  then have "g \<le> token_gap (snd (get_review tok send diffs td r))"
    using q1 rest by (simp split: sum.splits)
  then show ?thesis
    by (simp only: g_def)
qed

lemma length_superadditive: "newline_superadditive length"
  by (simp add: newline_superadditive_def)

section \<open>Posting the review comments\<close>

subsection \<open>The inner loop\<close>

lemma outcomes_append:
  "outcomes cr hist (ps @ qs) = outcomes cr hist ps @ outcomes cr (hist @ ps) qs"
  by (induction ps arbitrary: hist) simp_all

lemma valid_comments_simps:
  "valid_comments ext [] = []"
  "valid_comments ext (v # vs) = valid_of ext v @ valid_comments ext vs"
  "valid_comments ext (us @ vs) = valid_comments ext us @ valid_comments ext vs"
  by (simp_all add: valid_comments_def)

lemma invalid_count_simps:
  "invalid_count ext [] = 0"
  "invalid_count ext (v # vs) = (if is_invalid ext v then 1 else 0) + invalid_count ext vs"
  "invalid_count ext (us @ vs) = invalid_count ext us + invalid_count ext vs"
  by (simp_all add: invalid_count_def)

lemma rejected_count_simps:
  "rejected_count [] = 0"
  "rejected_count (r # rs) = (if r = Created then 0 else 1) + rejected_count rs"
  "rejected_count (rs @ rs') = rejected_count rs + rejected_count rs'"
  by (simp_all add: rejected_count_def)

text \<open>The four things one element can do.\<close>

lemma post_comments_invalid:
  "validate ext kvs = Inl e \<Longrightarrow>
   post_comments ext ld i (JObject kvs # rest) st
     = post_comments ext ld i rest
         (st\<lparr>error_details := error_details st @ [validation_error i e]\<rparr>)"
  by simp

lemma post_comments_created:
  "validate ext kvs = Inr c \<Longrightarrow> create ext (requests st) (discussion_payload ld c) = Created \<Longrightarrow>
   post_comments ext ld i (JObject kvs # rest) st
     = post_comments ext ld i rest (st\<lparr>requests := requests st @ [discussion_payload ld c]\<rparr>)"
  by simp

lemma post_comments_rejected:
  "validate ext kvs = Inr c \<Longrightarrow>
   create ext (requests st) (discussion_payload ld c) = GitlabCreateError msg \<Longrightarrow>
   post_comments ext ld i (JObject kvs # rest) st
     = post_comments ext ld i rest
         (st\<lparr>requests := requests st @ [discussion_payload ld c],
             error_details := error_details st @ [posting_error i c msg]\<rparr>)"
  by simp

lemma is_objectE: "is_object v \<Longrightarrow> \<exists>kvs. v = JObject kvs"
  by (cases v) (simp_all add: is_object_def)

text \<open>
  The whole inner loop, for an array of objects and a remote that only rejects: it runs to
  its end, requests a thread for every valid comment, in order, and appends one entry to
  the error list per invalid element and per rejected request.
\<close>

lemma post_comments_trace:
  assumes "only_rejects ext"
  shows "list_all is_object vs \<Longrightarrow>
    \<exists>st'. post_comments ext ld i vs st = (None, st')
      \<and> requests st' = requests st @ map (discussion_payload ld) (valid_comments ext vs)
      \<and> length (error_details st')
          = length (error_details st) + invalid_count ext vs
            + rejected_count (outcomes (create ext) (requests st)
                (map (discussion_payload ld) (valid_comments ext vs)))"
proof (induction vs arbitrary: st)
  case Nil
  show ?case by (simp add: valid_comments_simps invalid_count_simps rejected_count_simps)
next
  case (Cons v vs)
  from Cons.prems obtain kvs where v: "v = JObject kvs"
    using is_objectE by auto
  from Cons.prems have objs: "list_all is_object vs" by simp
  show ?case
  proof (cases "validate ext kvs")
    case (Inl e)
    let ?st1 = "st\<lparr>error_details := error_details st @ [validation_error i e]\<rparr>"
    from Cons.IH [OF objs, of ?st1] obtain st' where
      r: "post_comments ext ld i vs ?st1 = (None, st')"
         "requests st' = requests ?st1 @ map (discussion_payload ld) (valid_comments ext vs)"
         "length (error_details st')
            = length (error_details ?st1) + invalid_count ext vs
              + rejected_count (outcomes (create ext) (requests ?st1)
                  (map (discussion_payload ld) (valid_comments ext vs)))"
      by blast
    have vo: "valid_of ext v = []" "is_invalid ext v"
      using v Inl by (simp_all add: valid_of_def is_invalid_def)
    show ?thesis
      using r vo v Inl
      by (simp add: valid_comments_simps invalid_count_simps)
  next
    case (Inr c)
    let ?p = "discussion_payload ld c"
    have vo: "valid_of ext v = [c]" "\<not> is_invalid ext v"
      using v Inr by (simp_all add: valid_of_def is_invalid_def)
    show ?thesis
    proof (cases "create ext (requests st) ?p")
      case Created
      let ?st1 = "st\<lparr>requests := requests st @ [?p]\<rparr>"
      from Cons.IH [OF objs, of ?st1] obtain st' where
        r: "post_comments ext ld i vs ?st1 = (None, st')"
           "requests st' = requests ?st1 @ map (discussion_payload ld) (valid_comments ext vs)"
           "length (error_details st')
              = length (error_details ?st1) + invalid_count ext vs
                + rejected_count (outcomes (create ext) (requests ?st1)
                    (map (discussion_payload ld) (valid_comments ext vs)))"
        by blast
      show ?thesis
        using r vo v Inr Created
        by (simp add: valid_comments_simps invalid_count_simps rejected_count_simps)
    next
      case (GitlabCreateError msg)
      let ?st1 = "st\<lparr>requests := requests st @ [?p],
                      error_details := error_details st @ [posting_error i c msg]\<rparr>"
      from Cons.IH [OF objs, of ?st1] obtain st' where
        r: "post_comments ext ld i vs ?st1 = (None, st')"
           "requests st' = requests ?st1 @ map (discussion_payload ld) (valid_comments ext vs)"
           "length (error_details st')
              = length (error_details ?st1) + invalid_count ext vs
                + rejected_count (outcomes (create ext) (requests ?st1)
                    (map (discussion_payload ld) (valid_comments ext vs)))"
        by blast
      show ?thesis
        using r vo v Inr GitlabCreateError
        by (simp add: valid_comments_simps invalid_count_simps rejected_count_simps)
    next
      case (CreateRaised ex)
      with assms show ?thesis
        by (simp add: only_rejects_def)
    qed
  qed
qed

text \<open>The error list only grows.\<close>

lemma post_comments_errors_grow:
  "post_comments ext ld i vs st = (r, st') \<Longrightarrow>
   \<exists>more. error_details st' = error_details st @ more"
proof (induction vs arbitrary: st)
  case Nil
  then show ?case by simp
next
  case (Cons v vs)
  show ?case
  proof (cases v)
    case (JObject kvs)
    show ?thesis
    proof (cases "validate ext kvs")
      case (Inl e)
      with Cons.prems JObject Cons.IH
        [of "st\<lparr>error_details := error_details st @ [validation_error i e]\<rparr>"]
      show ?thesis by auto
    next
      case (Inr c)
      show ?thesis
      proof (cases "create ext (requests st) (discussion_payload ld c)")
        case Created
        with Cons.prems JObject Inr Cons.IH
          [of "st\<lparr>requests := requests st @ [discussion_payload ld c]\<rparr>"]
        show ?thesis by auto
      next
        case (GitlabCreateError msg)
        with Cons.prems JObject Inr Cons.IH
          [of "st\<lparr>requests := requests st @ [discussion_payload ld c],
                  error_details := error_details st @ [posting_error i c msg]\<rparr>"]
        show ?thesis by auto
      next
        case (CreateRaised ex)
        with Cons.prems JObject Inr show ?thesis by auto
      qed
    qed
  qed (use Cons.prems in auto)
qed

text \<open>When the inner loop runs to its end, every invalid element has its entry.\<close>

lemma post_comments_records_invalid:
  "post_comments ext ld i vs st = (None, st') \<Longrightarrow> JObject kvs \<in> set vs \<Longrightarrow>
   validate ext kvs = Inl e \<Longrightarrow> validation_error i e \<in> set (error_details st')"
proof (induction vs arbitrary: st)
  case Nil
  then show ?case by simp
next
  case (Cons v vs)
  show ?case
  proof (cases "v = JObject kvs")
    case True
    let ?st1 = "st\<lparr>error_details := error_details st @ [validation_error i e]\<rparr>"
    from Cons.prems True have "post_comments ext ld i vs ?st1 = (None, st')"
      by simp
    from post_comments_errors_grow [OF this] show ?thesis
      by auto
  next
    case False
    with Cons.prems have mem: "JObject kvs \<in> set vs" by simp
    show ?thesis
    proof (cases v)
      case (JObject kvs')
      show ?thesis
      proof (cases "validate ext kvs'")
        case (Inl e')
        with Cons.prems(1) JObject have
          "post_comments ext ld i vs
             (st\<lparr>error_details := error_details st @ [validation_error i e']\<rparr>) = (None, st')"
          by simp
        from Cons.IH [OF this mem Cons.prems(3)] show ?thesis .
      next
        case (Inr c)
        show ?thesis
        proof (cases "create ext (requests st) (discussion_payload ld c)")
          case Created
          with Cons.prems(1) JObject Inr have
            "post_comments ext ld i vs
               (st\<lparr>requests := requests st @ [discussion_payload ld c]\<rparr>) = (None, st')"
            by simp
          from Cons.IH [OF this mem Cons.prems(3)] show ?thesis .
        next
          case (GitlabCreateError msg)
          with Cons.prems(1) JObject Inr have
            "post_comments ext ld i vs
               (st\<lparr>requests := requests st @ [discussion_payload ld c],
                   error_details := error_details st @ [posting_error i c msg]\<rparr>) = (None, st')"
            by simp
          from Cons.IH [OF this mem Cons.prems(3)] show ?thesis .
        next
          case (CreateRaised ex)
          with Cons.prems(1) JObject Inr show ?thesis by simp
        qed
      qed
    qed (use Cons.prems in auto)
  qed
qed

subsection \<open>The outer loop\<close>

lemma rejected_count_zero: "rejected_count rs = 0 \<longleftrightarrow> list_all (\<lambda>r. r = Created) rs"
  by (induction rs) (simp_all add: rejected_count_simps)

lemma object_array_partE:
  "object_array_part ext p \<Longrightarrow>
   \<exists>vs. json_loads ext (strip_code_fence p) = Some (JArray vs) \<and> list_all is_object vs
        \<and> part_elements ext p = vs"
  by (auto simp: object_array_part_def part_elements_def split: option.splits json.splits)

lemma all_elements_simps:
  "all_elements ext [] = []"
  "all_elements ext (p # ps) = part_elements ext p @ all_elements ext ps"
  by (simp_all add: all_elements_def)

text \<open>
  The outer loop, for parts that all decode to arrays of objects and a remote that only
  rejects: it runs to its end and requests a thread for every valid comment of every part.
\<close>

lemma post_parts_trace:
  assumes "only_rejects ext"
  shows "list_all (object_array_part ext) parts \<Longrightarrow>
    \<exists>st'. post_parts ext ld i parts st = (Finished, st')
      \<and> requests st'
          = requests st @ map (discussion_payload ld) (valid_comments ext (all_elements ext parts))
      \<and> length (error_details st')
          = length (error_details st) + invalid_count ext (all_elements ext parts)
            + rejected_count (outcomes (create ext) (requests st)
                (map (discussion_payload ld) (valid_comments ext (all_elements ext parts))))"
proof (induction parts arbitrary: i st)
  case Nil
  show ?case
    by (simp add: all_elements_simps valid_comments_simps invalid_count_simps
        rejected_count_simps)
next
  case (Cons p ps)
  from Cons.prems have "object_array_part ext p" and rest: "list_all (object_array_part ext) ps"
    by simp_all
  from object_array_partE [OF this(1)] obtain vs where
    vs: "json_loads ext (strip_code_fence p) = Some (JArray vs)" "list_all is_object vs"
        "part_elements ext p = vs"
    by blast
  from post_comments_trace [OF assms vs(2), of ld i st] obtain st1 where
    s1: "post_comments ext ld i vs st = (None, st1)"
        "requests st1 = requests st @ map (discussion_payload ld) (valid_comments ext vs)"
        "length (error_details st1)
           = length (error_details st) + invalid_count ext vs
             + rejected_count (outcomes (create ext) (requests st)
                 (map (discussion_payload ld) (valid_comments ext vs)))"
    by blast
  from Cons.IH [OF rest, of "Suc i" st1] obtain st' where
    s2: "post_parts ext ld (Suc i) ps st1 = (Finished, st')"
        "requests st'
           = requests st1 @ map (discussion_payload ld) (valid_comments ext (all_elements ext ps))"
        "length (error_details st')
           = length (error_details st1) + invalid_count ext (all_elements ext ps)
             + rejected_count (outcomes (create ext) (requests st1)
                 (map (discussion_payload ld) (valid_comments ext (all_elements ext ps))))"
    by blast
  have run: "post_parts ext ld i (p # ps) st = (Finished, st')"
    using vs(1) s1(1) s2(1) by simp
  have reqs: "requests st'
      = requests st @ map (discussion_payload ld)
          (valid_comments ext (all_elements ext (p # ps)))"
    using s1(2) s2(2) vs(3) by (simp add: all_elements_simps valid_comments_simps)
  have errs: "length (error_details st')
      = length (error_details st) + invalid_count ext (all_elements ext (p # ps))
        + rejected_count (outcomes (create ext) (requests st)
            (map (discussion_payload ld) (valid_comments ext (all_elements ext (p # ps)))))"
    using s1(2,3) s2(3) vs(3)
    by (simp add: all_elements_simps valid_comments_simps invalid_count_simps
        outcomes_append rejected_count_simps)
  from run reqs errs show ?case by blast
qed

text \<open>The outer loop on a list of parts cut in two.\<close>

lemma post_parts_append:
  "post_parts ext ld i pre st = (Finished, st1) \<Longrightarrow>
   post_parts ext ld i (pre @ ps) st = post_parts ext ld (i + length pre) ps st1"
proof (induction pre arbitrary: i st)
  case Nil
  then show ?case by simp
next
  case (Cons p pre)
  show ?case
  proof (cases "json_loads ext (strip_code_fence p)")
    case None
    with Cons.prems show ?thesis by simp
  next
    case (Some v)
    show ?thesis
    proof (cases v)
      case (JArray vs)
      obtain r st2 where c: "post_comments ext ld i vs st = (r, st2)"
        by (cases "post_comments ext ld i vs st")
      show ?thesis
      proof (cases r)
        case None
        with Cons.prems Some JArray c have "post_parts ext ld (Suc i) pre st2 = (Finished, st1)"
          by simp
        from Cons.IH [OF this] Some JArray c None show ?thesis
          by simp
      next
        case (Some ex)
        with Cons.prems \<open>json_loads ext (strip_code_fence p) = Some v\<close> JArray c show ?thesis
          by simp
      qed
    next
      case JNull
      with Cons.prems Some Cons.IH
        [of "Suc i" "st\<lparr>error_details := error_details st @ [not_a_list_error i]\<rparr>"]
      show ?thesis by simp
    next
      case (JBool b)
      with Cons.prems Some Cons.IH
        [of "Suc i" "st\<lparr>error_details := error_details st @ [not_a_list_error i]\<rparr>"]
      show ?thesis by simp
    next
      case (JInt n)
      with Cons.prems Some Cons.IH
        [of "Suc i" "st\<lparr>error_details := error_details st @ [not_a_list_error i]\<rparr>"]
      show ?thesis by simp
    next
      case (JFloat f)
      with Cons.prems Some Cons.IH
        [of "Suc i" "st\<lparr>error_details := error_details st @ [not_a_list_error i]\<rparr>"]
      show ?thesis by simp
    next
      case (JString s)
      with Cons.prems Some Cons.IH
        [of "Suc i" "st\<lparr>error_details := error_details st @ [not_a_list_error i]\<rparr>"]
      show ?thesis by simp
    next
      case (JObject kvs)
      with Cons.prems Some Cons.IH
        [of "Suc i" "st\<lparr>error_details := error_details st @ [not_a_list_error i]\<rparr>"]
      show ?thesis by simp
    qed
  qed
qed

text \<open>A part that does not decode ends the outer loop at once.\<close>

lemma post_parts_decode_error:
  "json_loads ext (strip_code_fence p) = None \<Longrightarrow>
   post_parts ext ld i (p # rest) st = (Returned ''Invalid JSON format in ChatGPT response.'', st)"
  by simp

lemma post_review_comments_decode_error:
  assumes "post_parts ext ld 1 pre \<lparr>error_details = [], requests = []\<rparr> = (Finished, st_pre)"
    and "json_loads ext (strip_code_fence p) = None"
  shows "post_review_comments ext (pre @ p # rest) ld
           = (Inr (Some ''Invalid JSON format in ChatGPT response.''), st_pre)"
proof -
  have "post_parts ext ld 1 (pre @ p # rest) \<lparr>error_details = [], requests = []\<rparr>
          = (Returned ''Invalid JSON format in ChatGPT response.'', st_pre)"
    unfolding post_parts_append [OF assms(1)] using assms(2) by (rule post_parts_decode_error)
  then show ?thesis
    by (simp add: post_review_comments_def)
qed

text \<open>
  The result of a call in which every part decodes to an array of objects and the remote
  only rejects.
\<close>

lemma post_review_comments_trace:
  assumes "only_rejects ext" "list_all (object_array_part ext) parts"
  shows "\<exists>st'. post_parts ext ld 1 parts \<lparr>error_details = [], requests = []\<rparr> = (Finished, st')
    \<and> post_review_comments ext parts ld
        = (if error_details st' \<noteq> []
           then (Inr (Some (''Failed to post some comments due to errors: ''
                   @ json_dumps ext (error_details st'))), st')
           else (Inr None, st'))
    \<and> requests st' = map (discussion_payload ld) (valid_comments ext (all_elements ext parts))
    \<and> (error_details st' = [] \<longleftrightarrow>
          invalid_count ext (all_elements ext parts) = 0
          \<and> list_all (\<lambda>r. r = Created) (outcomes (create ext) [] (requests st')))"
proof -
  let ?st0 = "\<lparr>error_details = [], requests = []\<rparr>"
  let ?all = "all_elements ext parts"
  from post_parts_trace [OF assms, of ld 1 ?st0] obtain st' where
    s: "post_parts ext ld 1 parts ?st0 = (Finished, st')"
       "requests st' = map (discussion_payload ld) (valid_comments ext ?all)"
       "length (error_details st')
          = invalid_count ext ?all
            + rejected_count (outcomes (create ext) []
                (map (discussion_payload ld) (valid_comments ext ?all)))"
    by auto
  have R: "post_review_comments ext parts ld
             = (if error_details st' \<noteq> []
                then (Inr (Some (''Failed to post some comments due to errors: ''
                        @ json_dumps ext (error_details st'))), st')
                else (Inr None, st'))"
    using s(1) by (simp add: post_review_comments_def)
  have z: "error_details st' = [] \<longleftrightarrow>
      invalid_count ext ?all = 0
      \<and> list_all (\<lambda>r. r = Created) (outcomes (create ext) [] (requests st'))"
    using s(2,3) rejected_count_zero
      [of "outcomes (create ext) [] (map (discussion_payload ld) (valid_comments ext ?all))"]
    by (metis add_is_0 length_0_conv)
  from s(1,2) R z show ?thesis
    by blast
qed

subsection \<open>Decode errors and validation errors\<close>

text \<open>
  What the code does with a part that does not decode and with JSON objects that fail
  validation. A part that is not valid JSON ends the posting step at once: as soon as the
  loop reaches it, the function returns the fixed message, whatever parts follow, and
  nothing more is requested. An object that fails validation only adds an entry to the
  error list and the loop goes on with the next element: for an array of objects (and a
  remote that raises nothing but a rejection) the inner loop runs to its end, requests a
  thread for every valid element, in order, and the error list holds an entry for every
  invalid element.
\<close>

lemma post_review_comments_json_fatal:
  "(post_parts ext latest_diff 1 pre \<lparr>error_details = [], requests = []\<rparr> = (Finished, st_pre)
      \<and> json_loads ext (strip_code_fence p) = None
    \<longrightarrow> post_review_comments ext (pre @ p # rest) latest_diff
          = (Inr (Some ''Invalid JSON format in ChatGPT response.''), st_pre))
   \<and> (validate ext kvs = Inl e
    \<longrightarrow> post_comments ext latest_diff i (JObject kvs # vs) st
          = post_comments ext latest_diff i vs
              (st\<lparr>error_details := error_details st @ [validation_error i e]\<rparr>))
   \<and> (only_rejects ext \<and> list_all is_object vs
    \<longrightarrow> (\<exists>st'. post_comments ext latest_diff i vs st = (None, st')
          \<and> requests st'
              = requests st @ map (discussion_payload latest_diff) (valid_comments ext vs)
          \<and> (\<forall>kvs e. JObject kvs \<in> set vs \<and> validate ext kvs = Inl e
                \<longrightarrow> validation_error i e \<in> set (error_details st'))))"
proof -
  have a: "post_parts ext latest_diff 1 pre \<lparr>error_details = [], requests = []\<rparr> = (Finished, st_pre)
      \<and> json_loads ext (strip_code_fence p) = None
    \<longrightarrow> post_review_comments ext (pre @ p # rest) latest_diff
          = (Inr (Some ''Invalid JSON format in ChatGPT response.''), st_pre)"
    using post_review_comments_decode_error [of ext latest_diff pre st_pre p rest] by blast
  have b: "validate ext kvs = Inl e
    \<longrightarrow> post_comments ext latest_diff i (JObject kvs # vs) st
          = post_comments ext latest_diff i vs
              (st\<lparr>error_details := error_details st @ [validation_error i e]\<rparr>)"
    by (simp add: post_comments_invalid)
  have c: "\<exists>st'. post_comments ext latest_diff i vs st = (None, st')
          \<and> requests st'
              = requests st @ map (discussion_payload latest_diff) (valid_comments ext vs)
          \<and> (\<forall>kvs e. JObject kvs \<in> set vs \<and> validate ext kvs = Inl e
                \<longrightarrow> validation_error i e \<in> set (error_details st'))"
    if h: "only_rejects ext" "list_all is_object vs"
  proof -
    from post_comments_trace [OF h, of latest_diff i st] obtain st' where
      s: "post_comments ext latest_diff i vs st = (None, st')"
         "requests st'
            = requests st @ map (discussion_payload latest_diff) (valid_comments ext vs)"
      by blast
    from post_comments_records_invalid [OF s(1)] s show ?thesis
      by blast
  qed
  from a b c show ?thesis
    by blast
qed

subsection \<open>Rejected requests\<close>

text \<open>
  Claim C9, as amended. A rejection by the remote (\<open>GitlabCreateError\<close>) is recorded with
  the comment's text, its path and lines, its type and the error message, and the loop
  goes on with the next comment. When every part decodes to an array of objects and the
  remote raises nothing but rejections, a thread is requested for every valid comment of
  every part; the function returns \<open>None\<close> exactly when no element failed validation and
  every request was accepted, and otherwise the message with the serialized error list.
  When the loop reaches a part on which the decoder raises its decode error, the function
  returns the fixed decode error message instead, whatever failures the error list holds
  by then.
\<close>

theorem post_review_comments_collects_rejections:
  "(validate ext kvs = Inr c
      \<and> create ext (requests st) (discussion_payload latest_diff c) = GitlabCreateError msg
    \<longrightarrow> post_comments ext latest_diff i (JObject kvs # vs) st
          = post_comments ext latest_diff i vs
              (st\<lparr>requests := requests st @ [discussion_payload latest_diff c],
                  error_details := error_details st @ [posting_error i c msg]\<rparr>))
   \<and> (only_rejects ext \<and> list_all (object_array_part ext) review_comments
    \<longrightarrow> requests (snd (post_review_comments ext review_comments latest_diff))
          = map (discussion_payload latest_diff)
              (valid_comments ext (all_elements ext review_comments))
        \<and> (fst (post_review_comments ext review_comments latest_diff) = Inr None
            \<longleftrightarrow> invalid_count ext (all_elements ext review_comments) = 0
               \<and> list_all (\<lambda>r. r = Created)
                   (outcomes (create ext) []
                     (requests (snd (post_review_comments ext review_comments latest_diff)))))
        \<and> (fst (post_review_comments ext review_comments latest_diff) = Inr None
            \<or> fst (post_review_comments ext review_comments latest_diff)
                = Inr (Some (''Failed to post some comments due to errors: ''
                    @ json_dumps ext
                        (error_details
                          (snd (post_review_comments ext review_comments latest_diff)))))))
   \<and> (post_parts ext latest_diff 1 pre \<lparr>error_details = [], requests = []\<rparr> = (Finished, st_pre)
      \<and> json_loads ext (strip_code_fence p) = None
    \<longrightarrow> fst (post_review_comments ext (pre @ p # rest) latest_diff)
          = Inr (Some ''Invalid JSON format in ChatGPT response.'')
        \<and> error_details (snd (post_review_comments ext (pre @ p # rest) latest_diff))
          = error_details st_pre)"
proof -
  let ?R = "post_review_comments ext review_comments latest_diff"
  let ?all = "all_elements ext review_comments"
  have a: "validate ext kvs = Inr c
      \<and> create ext (requests st) (discussion_payload latest_diff c) = GitlabCreateError msg
    \<longrightarrow> post_comments ext latest_diff i (JObject kvs # vs) st
          = post_comments ext latest_diff i vs
              (st\<lparr>requests := requests st @ [discussion_payload latest_diff c],
                  error_details := error_details st @ [posting_error i c msg]\<rparr>)"
    by (simp add: post_comments_rejected)
  have b: "requests (snd ?R) = map (discussion_payload latest_diff) (valid_comments ext ?all)
        \<and> (fst ?R = Inr None
            \<longleftrightarrow> invalid_count ext ?all = 0
               \<and> list_all (\<lambda>r. r = Created) (outcomes (create ext) [] (requests (snd ?R))))
        \<and> (fst ?R = Inr None
            \<or> fst ?R = Inr (Some (''Failed to post some comments due to errors: ''
                    @ json_dumps ext (error_details (snd ?R)))))"
    if h: "only_rejects ext" "list_all (object_array_part ext) review_comments"
  proof -
    from post_review_comments_trace [OF h, of latest_diff] obtain st' where
      s: "?R = (if error_details st' \<noteq> []
                then (Inr (Some (''Failed to post some comments due to errors: ''
                        @ json_dumps ext (error_details st'))), st')
                else (Inr None, st'))"
         "requests st' = map (discussion_payload latest_diff) (valid_comments ext ?all)"
         "error_details st' = [] \<longleftrightarrow>
            invalid_count ext ?all = 0
            \<and> list_all (\<lambda>r. r = Created) (outcomes (create ext) [] (requests st'))"
      by blast
    show ?thesis
      using s by (cases "error_details st' = []") simp_all
  qed
  have d: "fst (post_review_comments ext (pre @ p # rest) latest_diff)
          = Inr (Some ''Invalid JSON format in ChatGPT response.'')
        \<and> error_details (snd (post_review_comments ext (pre @ p # rest) latest_diff))
          = error_details st_pre"
    if "post_parts ext latest_diff 1 pre \<lparr>error_details = [], requests = []\<rparr> = (Finished, st_pre)"
      "json_loads ext (strip_code_fence p) = None"
    using post_review_comments_decode_error [OF that, of rest] by simp
  from a b d show ?thesis
    by blast
qed

subsection \<open>Fenced responses\<close>

lemma strip_code_fence_fence_json: "strip_code_fence (fence_json s) = s @ [CHR 0x0A]"
  by (simp add: strip_code_fence_def fence_json_def startswith_def endswith_def Let_def)

lemma strip_code_fence_unfenced:
  "\<not> startswith s ''```json'' \<Longrightarrow> \<not> endswith s ''```'' \<Longrightarrow> strip_code_fence s = s"
  by (simp add: strip_code_fence_def Let_def)

text \<open>The outer loop sees a part only through the decoded value of its stripped text.\<close>

lemma post_parts_decoded:
  "map (\<lambda>p. json_loads ext (strip_code_fence p)) ps
     = map (\<lambda>p. json_loads ext (strip_code_fence p)) qs \<Longrightarrow>
   post_parts ext ld i ps st = post_parts ext ld i qs st"
proof (induction ps arbitrary: qs i st)
  case Nil
  then show ?case by simp
next
  case (Cons p ps)
  then obtain q qs' where q: "qs = q # qs'"
    "json_loads ext (strip_code_fence p) = json_loads ext (strip_code_fence q)"
    "map (\<lambda>p. json_loads ext (strip_code_fence p)) ps
       = map (\<lambda>p. json_loads ext (strip_code_fence p)) qs'"
    by (cases qs) auto
  have ih: "post_parts ext ld j ps s = post_parts ext ld j qs' s" for j s
    using Cons.IH [OF q(3)] .
  show ?case
    unfolding q(1) post_parts.simps q(2) ih ..
qed

text \<open>
  Claim C8, as amended. A response wrapped as a fenced block with the info string
  \<open>json\<close> (the opening line \<open>```json\<close>, the text, a closing line \<open>```\<close>) is
  stripped to the text followed by one newline, for every text. So for a text that does
  not itself begin with \<open>```json\<close> or end with \<open>```\<close>, and a decoder that ignores a
  final newline, the fenced and the unfenced response decode alike, and
  \<open>post_review_comments\<close> gives the same result and the same requests for both.
\<close>

theorem strip_code_fence_json_fenced_response:
  "strip_code_fence (fence_json s) = s @ [CHR 0x0A]
   \<and> (\<not> startswith s ''```json'' \<and> \<not> endswith s ''```'' \<longrightarrow> strip_code_fence s = s)
   \<and> (ignores_final_newline ext \<and> \<not> startswith s ''```json'' \<and> \<not> endswith s ''```''
      \<longrightarrow> json_loads ext (strip_code_fence (fence_json s))
            = json_loads ext (strip_code_fence s)
        \<and> post_review_comments ext (pre @ fence_json s # rest) latest_diff
            = post_review_comments ext (pre @ s # rest) latest_diff)"
proof -
  have c: "json_loads ext (strip_code_fence (fence_json s))
            = json_loads ext (strip_code_fence s)
        \<and> post_review_comments ext (pre @ fence_json s # rest) latest_diff
            = post_review_comments ext (pre @ s # rest) latest_diff"
    if h: "ignores_final_newline ext" "\<not> startswith s ''```json''" "\<not> endswith s ''```''"
  proof -
    have e: "json_loads ext (strip_code_fence (fence_json s))
               = json_loads ext (strip_code_fence s)"
      using h(1) by (simp add: strip_code_fence_fence_json strip_code_fence_unfenced [OF h(2,3)]
          ignores_final_newline_def)
    then have "post_parts ext latest_diff j (pre @ fence_json s # rest) st0
                 = post_parts ext latest_diff j (pre @ s # rest) st0" for j st0
      by (intro post_parts_decoded) simp
    with e show ?thesis
      by (simp add: post_review_comments_def)
  qed
  from c strip_code_fence_fence_json [of s] strip_code_fence_unfenced [of s] show ?thesis
    by blast
qed

text \<open>The sample decoder ignores final newlines; the sample remotes only reject.\<close>

lemma drop_final_newlines_snoc: "drop_final_newlines (s @ [CHR 0x0A]) = drop_final_newlines s"
  by (simp add: drop_final_newlines_def)

lemma sample_ext_ignores_final_newline: "ignores_final_newline (sample_ext cr)"
  by (simp add: ignores_final_newline_def sample_ext_def sample_loads_def
      drop_final_newlines_snoc)

lemma sample_ext_only_rejects:
  "only_rejects (sample_ext create_always)" "only_rejects (sample_ext create_alternating)"
  by (simp_all add: only_rejects_def sample_ext_def create_always_def create_alternating_def)

text \<open>With the sample decoder: the part \<open>mixed\<close>, fenced and unfenced, between two other parts.\<close>

theorem strip_code_fence_json_fenced_response_witness:
  "ignores_final_newline (sample_ext create_always)
   \<and> \<not> startswith ''mixed'' ''```json'' \<and> \<not> endswith ''mixed'' ''```''
   \<and> strip_code_fence ''mixed'' = ''mixed''
   \<and> json_loads (sample_ext create_always) (strip_code_fence (fence_json ''mixed''))
       = json_loads (sample_ext create_always) (strip_code_fence ''mixed'')
   \<and> post_review_comments (sample_ext create_always) ([''good''] @ fence_json ''mixed'' # [''[]''])
        sample_revision
       = post_review_comments (sample_ext create_always) ([''good''] @ ''mixed'' # [''[]''])
        sample_revision"
proof -
  have h: "\<not> startswith ''mixed'' ''```json''" "\<not> endswith ''mixed'' ''```''"
    by (simp_all add: startswith_def endswith_def)
  from strip_code_fence_json_fenced_response
    [where s = "''mixed''" and ext = "sample_ext create_always" and pre = "[''good'']"
      and rest = "[''[]'']" and latest_diff = sample_revision]
    h sample_ext_ignores_final_newline [of create_always]
  show ?thesis
    by blast
qed

text \<open>
  Claim C8 as stated fails: only an opening fence with the info string \<open>json\<close> is
  removed. Wrapped in a fence without info string, the array \<open>[]\<close> reaches the decoder
  as a text that still begins with the three backquotes, and the call returns the decode
  error message, while the unwrapped \<open>[]\<close> decodes and the call returns \<open>None\<close>. (And
  when the text follows \<open>```json\<close> with no line break, the slice \<open>[8:]\<close> cuts its first
  character off.)
\<close>

theorem strip_code_fence_counterexample:
  "strip_code_fence ''[]'' = ''[]''
   \<and> strip_code_fence (fence_plain ''[]'') = ''```\<newline>[]\<newline>''
   \<and> strip_code_fence (''```json'' @ ''[]'' @ ''```'') = '']''
   \<and> fst (post_review_comments (sample_ext create_always) [''[]''] sample_revision) = Inr None
   \<and> fst (post_review_comments (sample_ext create_always) [fence_plain ''[]''] sample_revision)
       = Inr (Some ''Invalid JSON format in ChatGPT response.'')"
  by (simp add: strip_code_fence_def fence_plain_def startswith_def endswith_def Let_def
      post_review_comments_def sample_ext_def sample_loads_def drop_final_newlines_def)

subsection \<open>The posting step at concrete inputs\<close>

lemmas sample_eval =
  sample_ext_def sample_loads_def drop_final_newlines_def sample_validate_def
  good_comment_def bad_comment_def create_always_def create_alternating_def
  strip_code_fence_def startswith_def endswith_def object_array_part_def part_elements_def
  all_elements_def is_object_def valid_comments_def valid_of_def invalid_count_def
  is_invalid_def

text \<open>
  Three parts, the second of which does not decode: the call returns the decode error
  message after the one comment of the first part. And a part with an incomplete comment
  between two complete ones: both complete comments are requested, the incomplete one is in
  the error list.
\<close>

lemma post_review_comments_json_fatal_example:
  "post_parts (sample_ext create_always) sample_revision 1 [''good'']
       \<lparr>error_details = [], requests = []\<rparr>
     = (Finished, \<lparr>error_details = [], requests = [discussion_payload sample_revision
          \<lparr>Comment = ''fix'', Path = Some ''a.py'', StartLine = 1, EndLine = 2, Type = ''new''\<rparr>]\<rparr>)
   \<and> json_loads (sample_ext create_always) (strip_code_fence ''oops'') = None
   \<and> post_review_comments (sample_ext create_always) ([''good''] @ ''oops'' # [''mixed''])
          sample_revision
       = (Inr (Some ''Invalid JSON format in ChatGPT response.''),
          \<lparr>error_details = [], requests = [discussion_payload sample_revision
            \<lparr>Comment = ''fix'', Path = Some ''a.py'', StartLine = 1, EndLine = 2,
               Type = ''new''\<rparr>]\<rparr>)
   \<and> only_rejects (sample_ext create_always)
   \<and> list_all is_object [good_comment, bad_comment, good_comment]
   \<and> validate (sample_ext create_always)
        [(''Path'', JString ''a.py''), (''StartLine'', JInt 1),
         (''Type'', JString ''new''), (''Comment'', JString ''fix'')] = Inl ''field required''
   \<and> post_comments (sample_ext create_always) sample_revision 1
        (JObject [(''Path'', JString ''a.py''), (''StartLine'', JInt 1),
                  (''Type'', JString ''new''), (''Comment'', JString ''fix'')]
          # [good_comment, bad_comment, good_comment])
        \<lparr>error_details = [], requests = []\<rparr>
      = post_comments (sample_ext create_always) sample_revision 1
          [good_comment, bad_comment, good_comment]
          (\<lparr>error_details = [], requests = []\<rparr>
            \<lparr>error_details := error_details \<lparr>error_details = [], requests = []\<rparr>
               @ [validation_error 1 ''field required'']\<rparr>)
   \<and> (\<exists>st'. post_comments (sample_ext create_always) sample_revision 1
                [good_comment, bad_comment, good_comment]
                \<lparr>error_details = [], requests = []\<rparr> = (None, st')
          \<and> length (requests st') = 2
          \<and> validation_error 1 ''field required'' \<in> set (error_details st'))"
proof -
  let ?ext = "sample_ext create_always"
  let ?kvs = "[(''Path'', JString ''a.py''), (''StartLine'', JInt 1),
         (''Type'', JString ''new''), (''Comment'', JString ''fix'')]"
  let ?st0 = "\<lparr>error_details = [], requests = []\<rparr>"
  let ?st1 = "\<lparr>error_details = [], requests = [discussion_payload sample_revision
      \<lparr>Comment = ''fix'', Path = Some ''a.py'', StartLine = 1, EndLine = 2, Type = ''new''\<rparr>]\<rparr>"
  have h1: "post_parts ?ext sample_revision 1 [''good''] ?st0 = (Finished, ?st1)"
    by (simp add: sample_eval)
  have h2: "json_loads ?ext (strip_code_fence ''oops'') = None"
    by (simp add: sample_eval)
  have h3: "list_all is_object [good_comment, bad_comment, good_comment]"
    by (simp add: sample_eval)
  have h4: "validate ?ext ?kvs = Inl ''field required''"
    by (simp add: sample_eval)
  have m: "JObject ?kvs \<in> set [good_comment, bad_comment, good_comment]"
    by (simp add: bad_comment_def)
  have v2: "length (valid_comments ?ext [good_comment, bad_comment, good_comment]) = 2"
    by (simp add: sample_eval)
  note t = post_review_comments_json_fatal
    [where ext = ?ext and pre = "[''good'']" and p = "''oops''" and rest = "[''mixed'']"
      and latest_diff = sample_revision and kvs = ?kvs and e = "''field required''" and i = 1
      and vs = "[good_comment, bad_comment, good_comment]" and st = ?st0 and st_pre = ?st1]
  from t h1 h2 have
    a: "post_review_comments ?ext ([''good''] @ ''oops'' # [''mixed'']) sample_revision
          = (Inr (Some ''Invalid JSON format in ChatGPT response.''), ?st1)"
    by blast
  from t h4 have b: "post_comments ?ext sample_revision 1
        (JObject ?kvs # [good_comment, bad_comment, good_comment]) ?st0
      = post_comments ?ext sample_revision 1 [good_comment, bad_comment, good_comment]
          (?st0\<lparr>error_details := error_details ?st0 @ [validation_error 1 ''field required'']\<rparr>)"
    by blast
  from t sample_ext_only_rejects(1) h3 obtain st' where
    c: "post_comments ?ext sample_revision 1 [good_comment, bad_comment, good_comment] ?st0
          = (None, st')"
       "requests st' = requests ?st0
          @ map (discussion_payload sample_revision)
              (valid_comments ?ext [good_comment, bad_comment, good_comment])"
       "\<forall>kvs e. JObject kvs \<in> set [good_comment, bad_comment, good_comment]
            \<and> validate ?ext kvs = Inl e
          \<longrightarrow> validation_error 1 e \<in> set (error_details st')"
    by blast
  from c(3) m h4 have c3: "validation_error 1 ''field required'' \<in> set (error_details st')"
    by blast
  from c(2) v2 have c2: "length (requests st') = 2"
    by simp
  from sample_ext_only_rejects(1) h1 h2 h3 h4 a b c(1) c2 c3 show ?thesis
    by blast
qed

text \<open>
  On a remote that rejects every second request: a rejected request is recorded and the
  loop goes on; the parts \<open>good\<close> and \<open>mixed\<close> lead to three requests and the error
  summary; and when the part \<open>oops\<close> follows the part \<open>mixed\<close>, the decode error message
  is returned with two entries in the error list. On a remote that accepts everything,
  the parts \<open>good\<close> and \<open>[]\<close> give \<open>None\<close>.
\<close>

theorem post_review_comments_collects_rejections_witness:
  "validate (sample_ext create_alternating)
        [(''Path'', JString ''a.py''), (''StartLine'', JInt 1), (''EndLine'', JInt 2),
         (''Type'', JString ''new''), (''Comment'', JString ''fix'')]
      = Inr \<lparr>Comment = ''fix'', Path = Some ''a.py'', StartLine = 1, EndLine = 2, Type = ''new''\<rparr>
   \<and> create (sample_ext create_alternating) (requests \<lparr>error_details = [], requests = [PNone]\<rparr>)
        (discussion_payload sample_revision
          \<lparr>Comment = ''fix'', Path = Some ''a.py'', StartLine = 1, EndLine = 2, Type = ''new''\<rparr>)
      = GitlabCreateError ''400 Bad request''
   \<and> post_comments (sample_ext create_alternating) sample_revision 1
        (JObject [(''Path'', JString ''a.py''), (''StartLine'', JInt 1), (''EndLine'', JInt 2),
                  (''Type'', JString ''new''), (''Comment'', JString ''fix'')] # [good_comment])
        \<lparr>error_details = [], requests = [PNone]\<rparr>
      = post_comments (sample_ext create_alternating) sample_revision 1 [good_comment]
          (\<lparr>error_details = [], requests = [PNone]\<rparr>
            \<lparr>requests := requests \<lparr>error_details = [], requests = [PNone]\<rparr>
               @ [discussion_payload sample_revision
                    \<lparr>Comment = ''fix'', Path = Some ''a.py'', StartLine = 1, EndLine = 2,
                       Type = ''new''\<rparr>],
             error_details := error_details \<lparr>error_details = [], requests = [PNone]\<rparr>
               @ [posting_error 1
                    \<lparr>Comment = ''fix'', Path = Some ''a.py'', StartLine = 1, EndLine = 2,
                       Type = ''new''\<rparr> ''400 Bad request'']\<rparr>)
   \<and> only_rejects (sample_ext create_alternating)
   \<and> list_all (object_array_part (sample_ext create_alternating)) [''good'', ''mixed'']
   \<and> length (requests (snd (post_review_comments (sample_ext create_alternating)
        [''good'', ''mixed''] sample_revision))) = 3
   \<and> fst (post_review_comments (sample_ext create_alternating) [''good'', ''mixed'']
        sample_revision) \<noteq> Inr None
   \<and> fst (post_review_comments (sample_ext create_alternating) [''good'', ''mixed'']
        sample_revision)
      = Inr (Some (''Failed to post some comments due to errors: ''
          @ json_dumps (sample_ext create_alternating)
              (error_details (snd (post_review_comments (sample_ext create_alternating)
                 [''good'', ''mixed''] sample_revision)))))
   \<and> only_rejects (sample_ext create_always)
   \<and> list_all (object_array_part (sample_ext create_always)) [''good'', ''[]'']
   \<and> fst (post_review_comments (sample_ext create_always) [''good'', ''[]''] sample_revision)
      = Inr None
   \<and> fst (post_parts (sample_ext create_alternating) sample_revision 1 [''mixed'']
        \<lparr>error_details = [], requests = []\<rparr>) = Finished
   \<and> json_loads (sample_ext create_alternating) (strip_code_fence ''oops'') = None
   \<and> fst (post_review_comments (sample_ext create_alternating) ([''mixed''] @ ''oops'' # [])
        sample_revision)
      = Inr (Some ''Invalid JSON format in ChatGPT response.'')
   \<and> length (error_details (snd (post_review_comments (sample_ext create_alternating)
        ([''mixed''] @ ''oops'' # []) sample_revision))) = 2"
proof -
  let ?alt = "sample_ext create_alternating"
  let ?ok = "sample_ext create_always"
  let ?c = "\<lparr>Comment = ''fix'', Path = Some ''a.py'', StartLine = 1, EndLine = 2, Type = ''new''\<rparr>"
  let ?st0 = "\<lparr>error_details = [], requests = []\<rparr>"
  have h0: "validate ?alt
        [(''Path'', JString ''a.py''), (''StartLine'', JInt 1), (''EndLine'', JInt 2),
         (''Type'', JString ''new''), (''Comment'', JString ''fix'')] = Inr ?c"
    by (simp add: sample_eval)
  have h1: "list_all (object_array_part ?alt) [''good'', ''mixed'']"
    by (simp add: sample_eval)
  have h2: "list_all (object_array_part ?ok) [''good'', ''[]'']"
    by (simp add: sample_eval)
  have n1: "invalid_count ?alt (all_elements ?alt [''good'', ''mixed'']) \<noteq> 0"
    by (simp add: sample_eval)
  have v1: "length (valid_comments ?alt (all_elements ?alt [''good'', ''mixed''])) = 3"
    by (simp add: sample_eval)
  have n2: "invalid_count ?ok (all_elements ?ok [''good'', ''[]'']) = 0"
    by (simp add: sample_eval)
  have o2: "list_all (\<lambda>r. r = Created) (outcomes (create ?ok) [] reqs)" for reqs
  proof -
    have "list_all (\<lambda>r. r = Created) (outcomes create_always hist reqs)" for hist
      by (induction reqs arbitrary: hist) (simp_all add: create_always_def)
    then show ?thesis by (simp add: sample_ext_def)
  qed
  note t1 = post_review_comments_collects_rejections
    [where ext = ?alt and review_comments = "[''good'', ''mixed'']"
      and latest_diff = sample_revision]
  note t2 = post_review_comments_collects_rejections
    [where ext = ?ok and review_comments = "[''good'', ''[]'']"
      and latest_diff = sample_revision]
  from t1 sample_ext_only_rejects(2) h1 have
    a: "requests (snd (post_review_comments ?alt [''good'', ''mixed''] sample_revision))
          = map (discussion_payload sample_revision)
              (valid_comments ?alt (all_elements ?alt [''good'', ''mixed'']))"
       "fst (post_review_comments ?alt [''good'', ''mixed''] sample_revision) = Inr None
          \<longleftrightarrow> invalid_count ?alt (all_elements ?alt [''good'', ''mixed'']) = 0
             \<and> list_all (\<lambda>r. r = Created) (outcomes (create ?alt) []
                 (requests (snd (post_review_comments ?alt [''good'', ''mixed'']
                    sample_revision))))"
       "fst (post_review_comments ?alt [''good'', ''mixed''] sample_revision) = Inr None
          \<or> fst (post_review_comments ?alt [''good'', ''mixed''] sample_revision)
              = Inr (Some (''Failed to post some comments due to errors: ''
                  @ json_dumps ?alt (error_details (snd (post_review_comments ?alt
                      [''good'', ''mixed''] sample_revision)))))"
    by blast+
  from a(1) v1 have a1: "length (requests (snd (post_review_comments ?alt
      [''good'', ''mixed''] sample_revision))) = 3"
    by simp
  from a(2) n1 have a2: "fst (post_review_comments ?alt [''good'', ''mixed'']
      sample_revision) \<noteq> Inr None"
    by blast
  from a(3) a2 have a3: "fst (post_review_comments ?alt [''good'', ''mixed''] sample_revision)
      = Inr (Some (''Failed to post some comments due to errors: ''
          @ json_dumps ?alt (error_details (snd (post_review_comments ?alt
              [''good'', ''mixed''] sample_revision)))))"
    by blast
  from t2 sample_ext_only_rejects(1) h2 n2 o2 have
    b: "fst (post_review_comments ?ok [''good'', ''[]''] sample_revision) = Inr None"
    by blast
  let ?st1 = "\<lparr>error_details = [], requests = [PNone]\<rparr>"
  have r0: "create ?alt (requests ?st1) (discussion_payload sample_revision ?c)
      = GitlabCreateError ''400 Bad request''"
    by (simp add: sample_ext_def create_alternating_def)
  note t0 = post_review_comments_collects_rejections
    [where ext = ?alt and latest_diff = sample_revision and i = 1 and c = ?c
      and msg = "''400 Bad request''" and st = ?st1 and vs = "[good_comment]"
      and kvs = "[(''Path'', JString ''a.py''), (''StartLine'', JInt 1), (''EndLine'', JInt 2),
         (''Type'', JString ''new''), (''Comment'', JString ''fix'')]"]
  from t0 h0 r0 have s0: "post_comments ?alt sample_revision 1
        (JObject [(''Path'', JString ''a.py''), (''StartLine'', JInt 1), (''EndLine'', JInt 2),
                  (''Type'', JString ''new''), (''Comment'', JString ''fix'')] # [good_comment])
        ?st1
      = post_comments ?alt sample_revision 1 [good_comment]
          (?st1\<lparr>requests := requests ?st1 @ [discussion_payload sample_revision ?c],
             error_details := error_details ?st1
               @ [posting_error 1 ?c ''400 Bad request'']\<rparr>)"
    by blast
  let ?st2 = "\<lparr>error_details = [validation_error 1 ''field required'',
                                  posting_error 1 ?c ''400 Bad request''],
               requests = [discussion_payload sample_revision ?c,
                           discussion_payload sample_revision ?c]\<rparr>"
  have p1: "post_parts ?alt sample_revision 1 [''mixed''] ?st0 = (Finished, ?st2)"
    by (simp add: sample_eval)
  have p2: "json_loads ?alt (strip_code_fence ''oops'') = None"
    by (simp add: sample_eval)
  note t3 = post_review_comments_collects_rejections
    [where ext = ?alt and latest_diff = sample_revision and pre = "[''mixed'']"
      and p = "''oops''" and rest = "[]" and st_pre = ?st2]
  from t3 p1 p2 have
    d: "fst (post_review_comments ?alt ([''mixed''] @ ''oops'' # []) sample_revision)
          = Inr (Some ''Invalid JSON format in ChatGPT response.'')"
       "error_details (snd (post_review_comments ?alt ([''mixed''] @ ''oops'' # [])
            sample_revision)) = error_details ?st2"
    by blast+
  from d(2) have d2: "length (error_details (snd (post_review_comments ?alt
      ([''mixed''] @ ''oops'' # []) sample_revision))) = 2"
    by simp
  from p1 have p1': "fst (post_parts ?alt sample_revision 1 [''mixed''] ?st0) = Finished"
    by simp
  from h0 r0 s0 sample_ext_only_rejects h1 h2 a1 a2 a3 b p1' p2 d(1) d2 show ?thesis
    by blast
qed

text \<open>
  Claim C9 as stated fails when a part does not decode. On the remote that rejects every
  second request, the part \<open>mixed\<close> leaves a validation failure and a rejected request in
  the error list; the part \<open>oops\<close> after it makes the function return the fixed decode
  error message: not \<open>None\<close>, and not the summary of the recorded failures.
\<close>

theorem post_review_comments_decode_error_counterexample:
  "fst (post_review_comments (sample_ext create_alternating) [''mixed'', ''oops'']
        sample_revision)
      = Inr (Some ''Invalid JSON format in ChatGPT response.'')
   \<and> error_details (snd (post_review_comments (sample_ext create_alternating)
        [''mixed'', ''oops''] sample_revision))
      = [validation_error 1 ''field required'',
         posting_error 1
           \<lparr>Comment = ''fix'', Path = Some ''a.py'', StartLine = 1, EndLine = 2, Type = ''new''\<rparr>
           ''400 Bad request'']
   \<and> fst (post_review_comments (sample_ext create_alternating) [''mixed'', ''oops'']
        sample_revision) \<noteq> Inr None
   \<and> fst (post_review_comments (sample_ext create_alternating) [''mixed'', ''oops'']
        sample_revision)
      \<noteq> Inr (Some (''Failed to post some comments due to errors: ''
            @ json_dumps (sample_ext create_alternating)
                (error_details (snd (post_review_comments (sample_ext create_alternating)
                   [''mixed'', ''oops''] sample_revision)))))"
  by (simp add: post_review_comments_def sample_eval)

subsection \<open>Array elements that are no objects\<close>

text \<open>
  \<open>ReviewComment(**comment_data)\<close> needs a mapping. For an array element of any other
  kind it raises \<open>TypeError\<close> before pydantic validates anything; the handler around it
  is for \<open>ValidationError\<close> only, so the exception ends the inner loop and the call.
\<close>

lemma post_comments_non_object:
  "\<not> is_object v \<Longrightarrow> post_comments ext ld i (v # rest) st = (Some TypeError, st)"
  by (cases v) (simp_all add: is_object_def)

text \<open>An exception of the remote other than a rejection ends the call as well.\<close>

lemma post_comments_other_exception:
  "validate ext kvs = Inr c \<Longrightarrow>
   create ext (requests st) (discussion_payload ld c) = CreateRaised ex \<Longrightarrow>
   post_comments ext ld i (JObject kvs # rest) st
     = (Some ex, st\<lparr>requests := requests st @ [discussion_payload ld c]\<rparr>)"
  by simp

text \<open>
  Claim C5 fails on the code. The part \<open>scalar\<close> decodes to an array of three elements:
  a complete comment, the number 1, a complete comment. The number fails the comment
  shape, so the claim has it recorded and skipped and both complete comments posted. The
  code posts the first comment and then raises \<open>TypeError\<close> out of
  \<open>post_review_comments\<close>: nothing is recorded or returned, and the second complete
  comment is never requested, on a remote that accepts every request. (For elements that
  are JSON objects the code does what the claim says: \<open>post_review_comments_json_fatal\<close>;
  and a part that does not decode makes it return the fixed message at once:
  \<open>post_review_comments_decode_error\<close>.)
\<close>

theorem post_review_comments_non_object_element:
  "json_loads (sample_ext_scalar create_always) (strip_code_fence ''scalar'')
     = Some (JArray [good_comment, JInt 1, good_comment])
   \<and> post_review_comments (sample_ext_scalar create_always) [''scalar''] sample_revision
     = (Inl TypeError,
        \<lparr>error_details = [],
         requests = [discussion_payload sample_revision
           \<lparr>Comment = ''fix'', Path = Some ''a.py'', StartLine = 1, EndLine = 2,
              Type = ''new''\<rparr>]\<rparr>)
   \<and> post_comments (sample_ext_scalar create_always) sample_revision 1 [JInt 1, good_comment]
        \<lparr>error_details = [], requests = []\<rparr>
     = (Some TypeError, \<lparr>error_details = [], requests = []\<rparr>)"
  by (simp add: post_review_comments_def sample_ext_scalar_def sample_loads_scalar_def
      sample_eval)

end
